theory Spec2Isabelle
  imports Complex_Main
begin

section \<open>Python values\<close>

text \<open>
  A Python \<open>str\<close> is the list of its code points, so that \<open>len\<close> and \<open>split\<close> count what
  Python counts and the Arabic literals of the source can be written down. \<open>ustr\<close> embeds
  an ASCII literal.
\<close>

type_synonym pystr = "nat list"

definition ustr :: "string \<Rightarrow> pystr" where
  "ustr s = map of_char s"

datatype TaskType =
    CONTENT_WRITING
  | DATA_ANALYSIS
  | TEXT_SUMMARIZATION
  | EMAIL_GENERATION
  | TRANSLATION
  | CODE_GENERATION

text \<open>
  The values a \<open>Dict[str, Any]\<close> of this program holds: JSON-like data, and the \<open>TaskType\<close>
  member that \<open>asdict\<close> leaves in a task record. A \<open>float\<close> is idealised as the exact
  rational it approximates. A \<open>dict\<close> is an association list in insertion order.
\<close>

datatype pyval =
    PNone
  | PBool bool
  | PInt int
  | PFloat rat
  | PStr pystr
  | PList "pyval list"
  | PDict "(pystr \<times> pyval) list"
  | PEnum TaskType

type_synonym pydict = "(pystr \<times> pyval) list"

datatype exc_kind =
    ValueError
  | TypeError
  | AttributeError
  | ZeroDivisionError
  | UnboundLocalError
  | OSError
  | APIError

text \<open>An exception is its class and the text \<open>str(e)\<close> gives.\<close>

datatype error = Exc exc_kind pystr

fun str_exc :: "error \<Rightarrow> pystr" where
  "str_exc (Exc k m) = m"

text \<open>\<open>d.get(k, default)\<close>\<close>

definition py_get :: "pydict \<Rightarrow> pystr \<Rightarrow> pyval \<Rightarrow> pyval" where
  "py_get d k dflt = (case map_of d k of None \<Rightarrow> dflt | Some v \<Rightarrow> v)"

text \<open>Truth value of an object, as \<open>if x\<close> and \<open>not x\<close> test it.\<close>

fun truthy :: "pyval \<Rightarrow> bool" where
  "truthy PNone = False"
| "truthy (PBool b) = b"
| "truthy (PInt i) = (i \<noteq> 0)"
| "truthy (PFloat r) = (r \<noteq> 0)"
| "truthy (PStr s) = (s \<noteq> [])"
| "truthy (PList xs) = (xs \<noteq> [])"
| "truthy (PDict kvs) = (kvs \<noteq> [])"
| "truthy (PEnum t) = True"

fun type_name :: "pyval \<Rightarrow> string" where
  "type_name PNone = ''NoneType''"
| "type_name (PBool b) = ''bool''"
| "type_name (PInt i) = ''int''"
| "type_name (PFloat r) = ''float''"
| "type_name (PStr s) = ''str''"
| "type_name (PList xs) = ''list''"
| "type_name (PDict kvs) = ''dict''"
| "type_name (PEnum t) = ''TaskType''"

definition quoted :: "string \<Rightarrow> pystr" where
  "quoted s = 39 # ustr s @ [39]"

subsection \<open>\<open>str.split()\<close>\<close>

text \<open>The code points for which \<open>str.isspace\<close> holds; \<open>split()\<close> separates at runs of them.\<close>

definition is_space :: "nat \<Rightarrow> bool" where
  "is_space c \<longleftrightarrow>
     (9 \<le> c \<and> c \<le> 13) \<or> (28 \<le> c \<and> c \<le> 32) \<or> c = 0x85 \<or> c = 0xA0 \<or> c = 0x1680 \<or>
     (0x2000 \<le> c \<and> c \<le> 0x200A) \<or> c = 0x2028 \<or> c = 0x2029 \<or> c = 0x202F \<or>
     c = 0x205F \<or> c = 0x3000"

fun split_from :: "pystr \<Rightarrow> pystr \<Rightarrow> pystr list" where
  "split_from cur [] = (if cur = [] then [] else [cur])"
| "split_from cur (c # cs) =
     (if is_space c then (if cur = [] then split_from [] cs else cur # split_from [] cs)
      else split_from (cur @ [c]) cs)"

definition py_split :: "pystr \<Rightarrow> pystr list" where
  "py_split s = split_from [] s"

text \<open>\<open>x.split()\<close> on any object: only a \<open>str\<close> has the method.\<close>

fun split_of :: "pyval \<Rightarrow> error + pystr list" where
  "split_of (PStr s) = Inr (py_split s)"
| "split_of v =
     Inl (Exc AttributeError
       (quoted (type_name v) @ ustr '' object has no attribute '' @ quoted ''split''))"

text \<open>\<open>x * 2\<close>\<close>

fun times2 :: "pyval \<Rightarrow> error + pyval" where
  "times2 (PInt i) = Inr (PInt (i * 2))"
| "times2 (PBool b) = Inr (PInt (if b then 2 else 0))"
| "times2 (PFloat r) = Inr (PFloat (r * 2))"
| "times2 (PStr s) = Inr (PStr (s @ s))"
| "times2 (PList xs) = Inr (PList (xs @ xs))"
| "times2 v =
     Inl (Exc TypeError
       (ustr ''unsupported operand type(s) for *: '' @ quoted (type_name v) @ ustr '' and '' @
        quoted ''int''))"

text \<open>\<open>a / b\<close> on two lengths\<close>

definition true_div :: "nat \<Rightarrow> nat \<Rightarrow> error + pyval" where
  "true_div a b =
     (if b = 0 then Inl (Exc ZeroDivisionError (ustr ''division by zero''))
      else Inr (PFloat (Fract (int a) (int b))))"


section \<open>Timestamps\<close>

text \<open>What \<open>datetime.now()\<close> returns: a naive local date and time, field by field.\<close>

record datetime =
  year :: nat
  month :: nat
  day :: nat
  hour :: nat
  minute :: nat
  second :: nat
  microsecond :: nat

text \<open>\<open>str(n)\<close> for a non-negative integer, and the zero-padded form of \<open>%02d\<close>.\<close>

fun dec :: "nat \<Rightarrow> pystr" where
  "dec n = (if n < 10 then [48 + n] else dec (n div 10) @ [48 + n mod 10])"

declare dec.simps [simp del]

definition pad :: "nat \<Rightarrow> nat \<Rightarrow> pystr" where
  "pad w n = replicate (w - length (dec n)) 48 @ dec n"

definition isoformat :: "datetime \<Rightarrow> pystr" where
  "isoformat d =
     pad 4 (year d) @ ustr ''-'' @ pad 2 (month d) @ ustr ''-'' @ pad 2 (day d) @ ustr ''T'' @
     pad 2 (hour d) @ ustr '':'' @ pad 2 (minute d) @ ustr '':'' @ pad 2 (second d) @
     (if microsecond d = 0 then [] else ustr ''.'' @ pad 6 (microsecond d))"

text \<open>\<open>strftime('%H%M%S')\<close>\<close>

definition strftime_HMS :: "datetime \<Rightarrow> pystr" where
  "strftime_HMS d = pad 2 (hour d) @ pad 2 (minute d) @ pad 2 (second d)"



section \<open>Tasks\<close>

fun member_name :: "TaskType \<Rightarrow> string" where
  "member_name CONTENT_WRITING = ''CONTENT_WRITING''"
| "member_name DATA_ANALYSIS = ''DATA_ANALYSIS''"
| "member_name TEXT_SUMMARIZATION = ''TEXT_SUMMARIZATION''"
| "member_name EMAIL_GENERATION = ''EMAIL_GENERATION''"
| "member_name TRANSLATION = ''TRANSLATION''"
| "member_name CODE_GENERATION = ''CODE_GENERATION''"

text \<open>\<open>TaskType.X.value\<close>\<close>

fun type_value :: "TaskType \<Rightarrow> string" where
  "type_value CONTENT_WRITING = ''content_writing''"
| "type_value DATA_ANALYSIS = ''data_analysis''"
| "type_value TEXT_SUMMARIZATION = ''text_summarization''"
| "type_value EMAIL_GENERATION = ''email_generation''"
| "type_value TRANSLATION = ''translation''"
| "type_value CODE_GENERATION = ''code_generation''"

text \<open>\<open>str(TaskType.X)\<close>\<close>

definition str_enum :: "TaskType \<Rightarrow> pystr" where
  "str_enum t = ustr ''TaskType.'' @ ustr (member_name t)"

record Task =
  task_id :: pystr
  task_type :: TaskType
  title :: pystr
  description :: pystr
  input_data :: pydict
  output_data :: "pydict option"
  status :: pystr
  created_at :: pystr
  completed_at :: "pystr option"

text \<open>\<open>dataclasses.asdict(task)\<close>: the fields in declaration order.\<close>

definition asdict :: "Task \<Rightarrow> pydict" where
  "asdict t =
     [(ustr ''id'', PStr (task_id t)),
      (ustr ''type'', PEnum (task_type t)),
      (ustr ''title'', PStr (title t)),
      (ustr ''description'', PStr (description t)),
      (ustr ''input_data'', PDict (input_data t)),
      (ustr ''output_data'', (case output_data t of None \<Rightarrow> PNone | Some d \<Rightarrow> PDict d)),
      (ustr ''status'', PStr (status t)),
      (ustr ''created_at'', PStr (created_at t)),
      (ustr ''completed_at'', (case completed_at t of None \<Rightarrow> PNone | Some c \<Rightarrow> PStr c))]"

section \<open>JSON documents\<close>

text \<open>
  A result file is modelled by the JSON document it holds; indentation and the UTF-8
  encoding of the text are left out.
\<close>

datatype json =
    JNull
  | JBool bool
  | JInt int
  | JFloat rat
  | JStr pystr
  | JArr "json list"
  | JObj "(pystr \<times> json) list"

text \<open>
  \<open>json.dump(v, f, ensure_ascii=False, indent=2, default=str)\<close>: the encoder hands an
  object it cannot serialise to \<open>default\<close>, here \<open>str\<close>; of the values above that is the
  \<open>TaskType\<close> member.
\<close>

primrec json_dump :: "pyval \<Rightarrow> json" where
  "json_dump PNone = JNull"
| "json_dump (PBool b) = JBool b"
| "json_dump (PInt i) = JInt i"
| "json_dump (PFloat r) = JFloat r"
| "json_dump (PStr s) = JStr s"
| "json_dump (PList xs) = JArr (map json_dump xs)"
| "json_dump (PDict kvs) = JObj (map (map_prod (\<lambda>k. k) json_dump) kvs)"
| "json_dump (PEnum t) = JStr (str_enum t)"


section \<open>The world outside the Orchestrator\<close>

text \<open>
  What a request to the backend carries: the task type whose prompt template is used, the
  values interpolated into the template in order of appearance, \<open>max_tokens\<close> and the
  temperature when one is given. The fixed text of the templates is left out.
\<close>

datatype request = Request TaskType "pyval list" pyval "rat option"

text \<open>
  What the code reads off a loaded \<open>DataFrame\<close>, each field named by the expression
  that computes it; column labels are strings.
\<close>

record frame =
  len_df :: nat
  df_columns :: "pystr list"
  dtypes_to_dict :: pyval
  isnull_sum_to_dict :: pyval
  number_columns :: nat
  describe_to_dict :: pyval
  isnull_sum_sum :: pyval

text \<open>Lines written to standard output, by the \<open>print\<close> that writes them.\<close>

datatype line =
    TaskStart pystr
  | TaskDone pystr
  | TaskFailed pystr pystr
  | WorkflowStart pystr
  | WorkflowTasks nat
  | WorkflowDone pystr

text \<open>
  The collaborators answer by the moment they are asked: \<open>tick\<close> counts the interactions
  so far, and each oracle maps the count to its answer. \<open>files\<close> is the file system
  below the working directory, \<open>stdout\<close> the lines printed.
\<close>

record world =
  tick :: nat
  clock :: "nat \<Rightarrow> datetime"
  acreate :: "nat \<Rightarrow> request \<Rightarrow> error + pystr"
  path_exists :: "nat \<Rightarrow> pystr \<Rightarrow> bool"
  read_csv :: "nat \<Rightarrow> pystr \<Rightarrow> error + frame"
  read_json :: "nat \<Rightarrow> pystr \<Rightarrow> error + frame"
  open_w :: "nat \<Rightarrow> pystr \<Rightarrow> error option"
  files :: "pystr \<Rightarrow> json option"
  stdout :: "line list"

definition advance :: "world \<Rightarrow> world" where
  "advance w = w\<lparr>tick := Suc (tick w)\<rparr>"

text \<open>\<open>datetime.now()\<close>\<close>

definition now :: "world \<Rightarrow> datetime \<times> world" where
  "now w = (clock w (tick w), advance w)"

text \<open>\<open>await openai.ChatCompletion.acreate(...)\<close>, then \<open>response.choices[0].message.content\<close>\<close>

definition chat :: "world \<Rightarrow> request \<Rightarrow> (error + pystr) \<times> world" where
  "chat w rq = (acreate w (tick w) rq, advance w)"

definition print :: "world \<Rightarrow> line \<Rightarrow> world" where
  "print w l = w\<lparr>stdout := stdout w @ [l]\<rparr>"

text \<open>\<open>with open(filepath, 'w', encoding='utf-8') as f: json.dump(v, f, ...)\<close>\<close>

definition write_json :: "world \<Rightarrow> pystr \<Rightarrow> pyval \<Rightarrow> (error + unit) \<times> world" where
  "write_json w filepath v =
     (case open_w w (tick w) filepath of
        Some e \<Rightarrow> (Inl e, advance w)
      | None \<Rightarrow> (Inr (), advance (w\<lparr>files := (files w)(filepath \<mapsto> json_dump v)\<rparr>)))"

text \<open>\<open>self.results_dir / filename\<close>, as \<open>str\<close> shows it\<close>

definition results_dir :: pystr where
  "results_dir = ustr ''results''"

definition in_results_dir :: "pystr \<Rightarrow> pystr" where
  "in_results_dir filename = results_dir @ ustr ''/'' @ filename"

section \<open>The six handlers\<close>

definition generate_content :: "world \<Rightarrow> pydict \<Rightarrow> (error + pydict) \<times> world" where
  "generate_content w inp =
     (let prompt = py_get inp (ustr ''prompt'') (PStr []);
          content_type = py_get inp (ustr ''content_type'') (PStr (ustr ''article''));
          language = py_get inp (ustr ''language'') (PStr (ustr ''arabic''));
          (response, w') =
            chat w (Request CONTENT_WRITING [content_type, language, prompt] (PInt 2000)
                      (Some (7 / 10)))
      in case response of
           Inl e \<Rightarrow> (Inl e, w')
         | Inr content \<Rightarrow>
             (Inr [(ustr ''content'', PStr content),
                   (ustr ''word_count'', PInt (int (length (py_split content)))),
                   (ustr ''content_type'', content_type),
                   (ustr ''language'', language)], w'))"

text \<open>\<open>pathlib.Path(x)\<close> takes a \<open>str\<close>.\<close>

fun as_path :: "pyval \<Rightarrow> error + pystr" where
  "as_path (PStr s) = Inr s"
| "as_path v =
     Inl (Exc TypeError
       (ustr ''expected str, bytes or os.PathLike object, not '' @ ustr (type_name v)))"

definition endswith :: "pystr \<Rightarrow> pystr \<Rightarrow> bool" where
  "endswith s suffix \<longleftrightarrow>
     length suffix \<le> length s \<and> drop (length s - length suffix) s = suffix"

definition msg_no_data_file :: pystr where
  "msg_no_data_file =
     [0x645, 0x644, 0x641, 0x20, 0x627, 0x644, 0x628, 0x64a, 0x627, 0x646, 0x627, 0x62a, 0x20,
      0x63a, 0x64a, 0x631, 0x20, 0x645, 0x648, 0x62c, 0x648, 0x62f]"

definition msg_unsupported_file :: pystr where
  "msg_unsupported_file =
     [0x646, 0x648, 0x639, 0x20, 0x645, 0x644, 0x641, 0x20, 0x63a, 0x64a, 0x631, 0x20, 0x645,
      0x62f, 0x639, 0x648, 0x645]"

text \<open>\<open>', '.join(df.columns)\<close>\<close>

fun join_comma :: "pystr list \<Rightarrow> pystr" where
  "join_comma [] = []"
| "join_comma [x] = x"
| "join_comma (x # y # ys) = x @ ustr '', '' @ join_comma (y # ys)"

definition analysis_of :: "world \<Rightarrow> frame \<Rightarrow> (error + pydict) \<times> world" where
  "analysis_of w df =
     (let analysis =
            [(ustr ''rows_count'', PInt (int (len_df df))),
             (ustr ''columns_count'', PInt (int (length (df_columns df)))),
             (ustr ''columns'', PList (map PStr (df_columns df))),
             (ustr ''data_types'', dtypes_to_dict df),
             (ustr ''missing_values'', isnull_sum_to_dict df),
             (ustr ''basic_stats'',
                (if number_columns df > 0 then describe_to_dict df else PDict []))];
          (response, w') =
            chat w (Request DATA_ANALYSIS
                      [PInt (int (len_df df)), PInt (int (length (df_columns df))),
                       PStr (join_comma (df_columns df)), isnull_sum_sum df]
                      (PInt 1000) None)
      in case response of
           Inl e \<Rightarrow> (Inl e, w')
         | Inr insights \<Rightarrow> (Inr (analysis @ [(ustr ''ai_insights'', PStr insights)]), w'))"

definition analyze_data :: "world \<Rightarrow> pydict \<Rightarrow> (error + pydict) \<times> world" where
  "analyze_data w inp =
     (let data_path = py_get inp (ustr ''data_path'') PNone in
      if \<not> truthy data_path then (Inl (Exc ValueError msg_no_data_file), w)
      else case as_path data_path of
        Inl e \<Rightarrow> (Inl e, w)
      | Inr p \<Rightarrow>
          if \<not> path_exists w (tick w) p then (Inl (Exc ValueError msg_no_data_file), advance w)
          else
            let w1 = advance w in
            if endswith p (ustr ''.csv'') then
              (case read_csv w1 (tick w1) p of
                 Inl e \<Rightarrow> (Inl e, advance w1)
               | Inr df \<Rightarrow> analysis_of (advance w1) df)
            else if endswith p (ustr ''.json'') then
              (case read_json w1 (tick w1) p of
                 Inl e \<Rightarrow> (Inl e, advance w1)
               | Inr df \<Rightarrow> analysis_of (advance w1) df)
            else (Inl (Exc ValueError msg_unsupported_file), w1))"

text \<open>
  The last entry of the dictionary \<open>_summarize_text\<close> returns:
  \<open>len(summary.split()) / len(text.split()) if text else 0\<close>
\<close>

definition compression_ratio :: "pyval \<Rightarrow> pystr \<Rightarrow> error + pyval" where
  "compression_ratio text summary =
     (if truthy text then
        (case split_of text of
           Inl e \<Rightarrow> Inl e
         | Inr ws \<Rightarrow> true_div (length (py_split summary)) (length ws))
      else Inr (PInt 0))"

definition summarize_text :: "world \<Rightarrow> pydict \<Rightarrow> (error + pydict) \<times> world" where
  "summarize_text w inp =
     (let text = py_get inp (ustr ''text'') (PStr []);
          max_length = py_get inp (ustr ''max_length'') (PInt 150);
          language = py_get inp (ustr ''language'') (PStr (ustr ''arabic''))
      in case times2 max_length of
           Inl e \<Rightarrow> (Inl e, w)
         | Inr max_tokens \<Rightarrow>
             (let (response, w') =
                    chat w (Request TEXT_SUMMARIZATION [max_length, language, text, language]
                              max_tokens None)
              in (case response of
                    Inl e \<Rightarrow> (Inl e, w')
                  | Inr summary \<Rightarrow>
                      (case split_of text of
                         Inl e \<Rightarrow> (Inl e, w')
                       | Inr ws \<Rightarrow>
                           (case compression_ratio text summary of
                              Inl e \<Rightarrow> (Inl e, w')
                            | Inr ratio \<Rightarrow>
                                (Inr [(ustr ''original_length'', PInt (int (length ws))),
                                      (ustr ''summary'', PStr summary),
                                      (ustr ''summary_length'',
                                         PInt (int (length (py_split summary)))),
                                      (ustr ''compression_ratio'', ratio)], w'))))))"

definition generate_email :: "world \<Rightarrow> pydict \<Rightarrow> (error + pydict) \<times> world" where
  "generate_email w inp =
     (let purpose = py_get inp (ustr ''purpose'') (PStr []);
          recipient = py_get inp (ustr ''recipient'') (PStr []);
          tone = py_get inp (ustr ''tone'') (PStr (ustr ''professional''));
          language = py_get inp (ustr ''language'') (PStr (ustr ''arabic''));
          (response, w') =
            chat w (Request EMAIL_GENERATION [language, tone, purpose, recipient] (PInt 800) None)
      in case response of
           Inl e \<Rightarrow> (Inl e, w')
         | Inr email_content \<Rightarrow>
             (Inr [(ustr ''email_content'', PStr email_content),
                   (ustr ''purpose'', purpose),
                   (ustr ''tone'', tone),
                   (ustr ''language'', language)], w'))"

definition translate_text :: "world \<Rightarrow> pydict \<Rightarrow> (error + pydict) \<times> world" where
  "translate_text w inp =
     (let text = py_get inp (ustr ''text'') (PStr []);
          source_lang = py_get inp (ustr ''source_language'') (PStr (ustr ''auto''));
          target_lang = py_get inp (ustr ''target_language'') (PStr (ustr ''arabic''))
      in case split_of text of
           Inl e \<Rightarrow> (Inl e, w)
         | Inr ws \<Rightarrow>
             (let (response, w') =
                    chat w (Request TRANSLATION [source_lang, target_lang, text]
                              (PInt (int (length ws) * 2)) None)
              in (case response of
                    Inl e \<Rightarrow> (Inl e, w')
                  | Inr translation \<Rightarrow>
                      (Inr [(ustr ''original_text'', text),
                            (ustr ''translated_text'', PStr translation),
                            (ustr ''source_language'', source_lang),
                            (ustr ''target_language'', target_lang)], w'))))"

definition generate_code :: "world \<Rightarrow> pydict \<Rightarrow> (error + pydict) \<times> world" where
  "generate_code w inp =
     (let description = py_get inp (ustr ''description'') (PStr []);
          language = py_get inp (ustr ''programming_language'') (PStr (ustr ''python''));
          (response, w') =
            chat w (Request CODE_GENERATION [language, description, language] (PInt 1500) None)
      in case response of
           Inl e \<Rightarrow> (Inl e, w')
         | Inr code \<Rightarrow>
             (Inr [(ustr ''code'', PStr code),
                   (ustr ''programming_language'', language),
                   (ustr ''description'', description)], w'))"

section \<open>Executing one task\<close>

definition save_results :: "world \<Rightarrow> Task \<Rightarrow> (error + unit) \<times> world" where
  "save_results w task =
     (let filename = task_id task @ ustr ''_'' @ ustr (type_value (task_type task)) @ ustr ''.json''
      in write_json w (in_results_dir filename) (PDict (asdict task)))"

text \<open>The \<open>if\<close>/\<open>elif\<close> chain over \<open>task.type\<close>; its \<open>else\<close> has no member left to reach it.\<close>

fun dispatch :: "world \<Rightarrow> TaskType \<Rightarrow> pydict \<Rightarrow> (error + pydict) \<times> world" where
  "dispatch w CONTENT_WRITING inp = generate_content w inp"
| "dispatch w DATA_ANALYSIS inp = analyze_data w inp"
| "dispatch w TEXT_SUMMARIZATION inp = summarize_text w inp"
| "dispatch w EMAIL_GENERATION inp = generate_email w inp"
| "dispatch w TRANSLATION inp = translate_text w inp"
| "dispatch w CODE_GENERATION inp = generate_code w inp"

text \<open>The \<open>except Exception as e\<close> block.\<close>

definition on_exception :: "error \<Rightarrow> Task \<Rightarrow> world \<Rightarrow> (error + pydict) \<times> Task \<times> world" where
  "on_exception e task w =
     (Inl e,
      task\<lparr>status := ustr ''failed'', output_data := Some [(ustr ''error'', PStr (str_exc e))]\<rparr>,
      print w (TaskFailed (title task) (str_exc e)))"

text \<open>
  \<open>execute_task\<close> changes the task object it is given; the model returns the task as the
  call leaves it, beside what the call returns (\<open>Inr\<close>) or raises (\<open>Inl\<close>).
\<close>

definition execute_task :: "world \<Rightarrow> Task \<Rightarrow> (error + pydict) \<times> Task \<times> world" where
  "execute_task w task =
     (let t1 = task\<lparr>status := ustr ''running''\<rparr>;
          w1 = print w (TaskStart (title task));
          (r, w2) = dispatch w1 (task_type t1) (input_data t1)
      in case r of
           Inl e \<Rightarrow> on_exception e t1 w2
         | Inr result \<Rightarrow>
             (let t2 = t1\<lparr>output_data := Some result, status := ustr ''completed''\<rparr>;
                  (n, w3) = now w2;
                  t3 = t2\<lparr>completed_at := Some (isoformat n)\<rparr>;
                  (saved, w4) = save_results w3 t3
              in (case saved of
                    Inl e \<Rightarrow> on_exception e t3 w4
                  | Inr u \<Rightarrow> (Inr result, t3, print w4 (TaskDone (title task))))))"

section \<open>The Orchestrator\<close>

record AIWorkflowBuilder =
  api_key :: pystr
  tasks :: "Task list"
  workflows :: "pystr \<Rightarrow> pystr list option"

text \<open>
  \<open>__init__\<close>, given the argument and what \<open>os.getenv('OPENAI_API_KEY')\<close> answers.
  Creating the results directory is left out.
\<close>

definition init :: "pystr option \<Rightarrow> pystr option \<Rightarrow> error + AIWorkflowBuilder" where
  "init key getenv =
     (let k = (case key of
                 None \<Rightarrow> getenv
               | Some s \<Rightarrow> if s \<noteq> [] then Some s else getenv)
      in case k of
           None \<Rightarrow> Inl (Exc ValueError (ustr ''OpenAI API key is required''))
         | Some s \<Rightarrow>
             if s = [] then Inl (Exc ValueError (ustr ''OpenAI API key is required''))
             else Inr \<lparr>api_key = s, tasks = [], workflows = Map.empty\<rparr>)"

text \<open>\<open>Task.__post_init__\<close>\<close>

definition post_init :: "world \<Rightarrow> Task \<Rightarrow> Task \<times> world" where
  "post_init w task =
     (if created_at task = [] then
        (let (n, w') = now w in (task\<lparr>created_at := isoformat n\<rparr>, w'))
      else (task, w))"

text \<open>\<open>Task(id=..., type=..., title=..., description=..., input_data=...)\<close> with its defaults\<close>

definition new_Task ::
  "world \<Rightarrow> pystr \<Rightarrow> TaskType \<Rightarrow> pystr \<Rightarrow> pystr \<Rightarrow> pydict \<Rightarrow> Task \<times> world" where
  "new_Task w i ty ti de inp =
     post_init w
       \<lparr>task_id = i, task_type = ty, title = ti, description = de, input_data = inp,
        output_data = None, status = ustr ''pending'', created_at = [], completed_at = None\<rparr>"

definition add_task ::
  "AIWorkflowBuilder \<Rightarrow> world \<Rightarrow> TaskType \<Rightarrow> pystr \<Rightarrow> pystr \<Rightarrow> pydict \<Rightarrow>
   pystr \<times> AIWorkflowBuilder \<times> world" where
  "add_task b w ty ti de inp =
     (let (n, w1) = now w;
          i = ustr ''task_'' @ dec (length (tasks b)) @ ustr ''_'' @ strftime_HMS n;
          (task, w2) = new_Task w1 i ty ti de inp
      in (i, b\<lparr>tasks := tasks b @ [task]\<rparr>, w2))"

definition create_workflow :: "AIWorkflowBuilder \<Rightarrow> pystr \<Rightarrow> pystr list \<Rightarrow> AIWorkflowBuilder" where
  "create_workflow b workflow_name task_ids =
     b\<lparr>workflows := (workflows b)(workflow_name \<mapsto> task_ids)\<rparr>"

definition msg_no_workflow :: "pystr \<Rightarrow> pystr" where
  "msg_no_workflow workflow_name =
     [0x633, 0x64a, 0x631, 0x20, 0x627, 0x644, 0x639, 0x645, 0x644, 0x20, 0x27] @ workflow_name @
     [0x27, 0x20, 0x63a, 0x64a, 0x631, 0x20, 0x645, 0x648, 0x62c, 0x648, 0x62f]"

text \<open>
  \<open>[t for t in self.tasks if t.id in task_ids]\<close>. The list holds the task objects
  themselves, which the loop then changes in place; an object is named here by its
  position in \<open>self.tasks\<close>.
\<close>

definition tasks_to_execute :: "Task list \<Rightarrow> pystr list \<Rightarrow> nat list" where
  "tasks_to_execute ts task_ids = filter (\<lambda>i. task_id (ts ! i) \<in> set task_ids) [0..<length ts]"

text \<open>
  The \<open>for\<close> loop of \<open>execute_workflow\<close>: an exception of \<open>execute_task\<close> leaves the loop
  and the function.
\<close>

fun execute_each ::
  "world \<Rightarrow> Task list \<Rightarrow> nat list \<Rightarrow> pydict list \<Rightarrow> (error + pydict list) \<times> Task list \<times> world" where
  "execute_each w ts [] results = (Inr results, ts, w)"
| "execute_each w ts (i # rest) results =
     (case execute_task w (ts ! i) of
        (Inl e, t', w') \<Rightarrow> (Inl e, ts[i := t'], w')
      | (Inr result, t', w') \<Rightarrow> execute_each w' (ts[i := t']) rest (results @ [result]))"

definition execute_workflow ::
  "AIWorkflowBuilder \<Rightarrow> world \<Rightarrow> pystr \<Rightarrow> (error + pydict list) \<times> AIWorkflowBuilder \<times> world" where
  "execute_workflow b w workflow_name =
     (case workflows b workflow_name of
        None \<Rightarrow> (Inl (Exc ValueError (msg_no_workflow workflow_name)), b, w)
      | Some task_ids \<Rightarrow>
          (let sel = tasks_to_execute (tasks b) task_ids;
               w1 = print (print w (WorkflowStart workflow_name)) (WorkflowTasks (length sel));
               (r, ts, w2) = execute_each w1 (tasks b) sel []
           in (case r of
                 Inl e \<Rightarrow> (Inl e, b\<lparr>tasks := ts\<rparr>, w2)
               | Inr results \<Rightarrow>
                   (Inr results, b\<lparr>tasks := ts\<rparr>, print w2 (WorkflowDone workflow_name)))))"

definition msg_no_task :: pystr where
  "msg_no_task =
     [0x627, 0x644, 0x645, 0x647, 0x645, 0x629, 0x20, 0x63a, 0x64a, 0x631, 0x20, 0x645, 0x648,
      0x62c, 0x648, 0x62f, 0x629]"

definition get_task_status :: "AIWorkflowBuilder \<Rightarrow> pystr \<Rightarrow> pydict" where
  "get_task_status b i =
     (case find (\<lambda>t. task_id t = i) (tasks b) of
        None \<Rightarrow> [(ustr ''error'', PStr msg_no_task)]
      | Some task \<Rightarrow> asdict task)"


text \<open>
  \<open>export_workflow_results\<close>. \<open>filepath\<close> is bound inside \<open>if format == 'json'\<close> only, and
  \<open>return str(filepath)\<close> stands after the \<open>if\<close>: with any other format the name is
  unbound there (the message is that of Python up to 3.10).
\<close>

definition export_workflow_results ::
  "AIWorkflowBuilder \<Rightarrow> world \<Rightarrow> pystr \<Rightarrow> pystr \<Rightarrow> (error + pystr) \<times> world" where
  "export_workflow_results b w workflow_name format =
     (case workflows b workflow_name of
        None \<Rightarrow> (Inl (Exc ValueError (msg_no_workflow workflow_name)), w)
      | Some task_ids \<Rightarrow>
          (let workflow_tasks = filter (\<lambda>t. task_id t \<in> set task_ids) (tasks b);
               (n, w1) = now w;
               results =
                 [(ustr ''workflow_name'', PStr workflow_name),
                  (ustr ''execution_date'', PStr (isoformat n)),
                  (ustr ''tasks'', PList (map (\<lambda>task. PDict (asdict task)) workflow_tasks))]
           in if format = ustr ''json'' then
                (let filename = workflow_name @ ustr ''_results.json'';
                     filepath = in_results_dir filename;
                     (written, w2) = write_json w1 filepath (PDict results)
                 in (case written of
                       Inl e \<Rightarrow> (Inl e, w2)
                     | Inr u \<Rightarrow> (Inr filepath, w2)))
              else
                (Inl (Exc UnboundLocalError
                   (ustr ''local variable '' @ quoted ''filepath'' @
                    ustr '' referenced before assignment'')), w1)))"

subsection \<open>Sequences of calls\<close>

text \<open>
  The calls a front end makes on one Orchestrator. \<open>ExecuteTask i\<close> is \<open>execute_task\<close> on
  the object at position \<open>i\<close> of \<open>tasks\<close>. An exception is caught by the caller, as the
  command line does; what it has changed by then stays.
\<close>

datatype call =
    AddTask TaskType pystr pystr pydict
  | CreateWorkflow pystr "pystr list"
  | ExecuteTask nat
  | ExecuteWorkflow pystr
  | GetTaskStatus pystr
  | ListTasks
  | ExportWorkflowResults pystr pystr

fun perform :: "call \<Rightarrow> AIWorkflowBuilder \<times> world \<Rightarrow> AIWorkflowBuilder \<times> world" where
  "perform (AddTask ty ti de inp) (b, w) = snd (add_task b w ty ti de inp)"
| "perform (CreateWorkflow n ids) (b, w) = (create_workflow b n ids, w)"
| "perform (ExecuteTask i) (b, w) =
     (if i < length (tasks b) then
        (case execute_task w (tasks b ! i) of (r, t', w') \<Rightarrow> (b\<lparr>tasks := (tasks b)[i := t']\<rparr>, w'))
      else (b, w))"
| "perform (ExecuteWorkflow n) (b, w) = snd (execute_workflow b w n)"
| "perform (GetTaskStatus i) (b, w) = (b, w)"
| "perform ListTasks (b, w) = (b, w)"
| "perform (ExportWorkflowResults n f) (b, w) = (b, snd (export_workflow_results b w n f))"

fun perform_all :: "call list \<Rightarrow> AIWorkflowBuilder \<times> world \<Rightarrow> AIWorkflowBuilder \<times> world" where
  "perform_all [] s = s"
| "perform_all (c # cs) s = perform_all cs (perform c s)"

text \<open>The identifiers that the \<open>add_task\<close> calls of a sequence return, in order.\<close>

fun returned_ids :: "call list \<Rightarrow> AIWorkflowBuilder \<times> world \<Rightarrow> pystr list" where
  "returned_ids [] s = []"
| "returned_ids (AddTask ty ti de inp # cs) (b, w) =
     fst (add_task b w ty ti de inp) # returned_ids cs (perform (AddTask ty ti de inp) (b, w))"
| "returned_ids (c # cs) s = returned_ids cs (perform c s)"

section \<open>Specification-level notions\<close>

text \<open>
  Executing a list of tasks strictly one after the other, in the order of the list, and
  stopping at the first execution that raises: the outcome of every task attempted, with
  the task as its execution left it, and the world at the end. The tasks after a failure
  do not occur in the result: they are not attempted.
\<close>

fun attempt :: "world \<Rightarrow> Task list \<Rightarrow> ((error + pydict) \<times> Task) list \<times> world" where
  "attempt w [] = ([], w)"
| "attempt w (t # ts) =
     (case execute_task w t of
        (Inl e, t', w') \<Rightarrow> ([(Inl e, t')], w')
      | (Inr result, t', w') \<Rightarrow>
          (case attempt w' ts of (outs, w'') \<Rightarrow> ((Inr result, t') # outs, w'')))"

text \<open>The exception that ended a run of attempts, if one did, and what the run returns.\<close>

definition raised :: "((error + pydict) \<times> Task) list \<Rightarrow> error option" where
  "raised outs =
     (case outs of
        [] \<Rightarrow> None
      | x # xs \<Rightarrow> (case fst (last outs) of Inl e \<Rightarrow> Some e | Inr result \<Rightarrow> None))"

fun result_of :: "(error + pydict) \<times> Task \<Rightarrow> pydict" where
  "result_of (Inr result, t) = result"
| "result_of (Inl e, t) = []"

definition returned :: "((error + pydict) \<times> Task) list \<Rightarrow> error + pydict list" where
  "returned outs = (case raised outs of Some e \<Rightarrow> Inl e | None \<Rightarrow> Inr (map result_of outs))"

text \<open>Storing the attempted tasks back at the positions they were taken from.\<close>

fun write_back :: "Task list \<Rightarrow> nat list \<Rightarrow> ((error + pydict) \<times> Task) list \<Rightarrow> Task list" where
  "write_back ts (i # rest) (x # xs) = write_back (ts[i := snd x]) rest xs"
| "write_back ts [] xs = ts"
| "write_back ts rest [] = ts"

text \<open>
  The tasks of a workflow in the order of the workflow's identifier list: for each
  identifier in turn, the tasks of the task list that carry it.
\<close>

definition in_workflow_order :: "Task list \<Rightarrow> pystr list \<Rightarrow> Task list" where
  "in_workflow_order ts task_ids = concat (map (\<lambda>i. filter (\<lambda>t. task_id t = i) ts) task_ids)"

text \<open>
  The tasks of a workflow in the order of the Orchestrator's task list: the tasks whose
  identifier occurs in the workflow's list.
\<close>

definition in_task_list_order :: "Task list \<Rightarrow> pystr list \<Rightarrow> Task list" where
  "in_task_list_order ts task_ids = filter (\<lambda>t. task_id t \<in> set task_ids) ts"

text \<open>
  What reading a value back from its JSON text gives: a \<open>TaskType\<close> member comes back
  as the string \<open>default=str\<close> made of it, everything else as it was.
\<close>

primrec read_back :: "pyval \<Rightarrow> pyval" where
  "read_back PNone = PNone"
| "read_back (PBool b) = PBool b"
| "read_back (PInt i) = PInt i"
| "read_back (PFloat r) = PFloat r"
| "read_back (PStr s) = PStr s"
| "read_back (PList xs) = PList (map read_back xs)"
| "read_back (PDict kvs) = PDict (map (map_prod (\<lambda>k. k) read_back) kvs)"
| "read_back (PEnum t) = PStr (str_enum t)"






text \<open>A string of white space only, and not empty.\<close>

definition blank :: "pystr \<Rightarrow> bool" where
  "blank s \<longleftrightarrow> s \<noteq> [] \<and> list_all is_space s"

text \<open>The collaborators of a world: what it answers, whatever has happened so far.\<close>

definition oracles ::
  "world \<Rightarrow>
   (nat \<Rightarrow> datetime) \<times> (nat \<Rightarrow> request \<Rightarrow> error + pystr) \<times> (nat \<Rightarrow> pystr \<Rightarrow> bool) \<times>
   (nat \<Rightarrow> pystr \<Rightarrow> error + frame) \<times> (nat \<Rightarrow> pystr \<Rightarrow> error + frame) \<times>
   (nat \<Rightarrow> pystr \<Rightarrow> error option)" where
  "oracles w = (clock w, acreate w, path_exists w, read_csv w, read_json w, open_w w)"

text \<open>
  Identifiers of the form \<open>task_<k>_...\<close> with \<open>k\<close> the position in the task list.
\<close>

definition numbered :: "Task list \<Rightarrow> bool" where
  "numbered ts \<longleftrightarrow>
     (\<forall>k < length ts. \<exists>h. task_id (ts ! k) = ustr ''task_'' @ dec k @ ustr ''_'' @ h)"


text \<open>\<open>record[key]\<close> on a record read back from a file or reported by \<open>list_tasks\<close>\<close>

definition item :: "string \<Rightarrow> pyval \<Rightarrow> pyval" where
  "item k v = (case v of PDict kvs \<Rightarrow> py_get kvs (ustr k) PNone | x \<Rightarrow> PNone)"


section \<open>Test doubles\<close>

text \<open>
  A world for concrete runs: the backend answers every request with \<open>reply\<close>, the clock
  reads ten o'clock on 1 January 2024 plus as many microseconds as interactions have
  passed, no data file exists, every file opens for writing, nothing is on disk yet.
\<close>

definition stub_world :: "(error + pystr) \<Rightarrow> world" where
  "stub_world reply =
     \<lparr>tick = 0,
      clock = (\<lambda>n. \<lparr>year = 2024, month = 1, day = 1, hour = 10, minute = 0, second = 0,
                     microsecond = n\<rparr>),
      acreate = (\<lambda>n rq. reply),
      path_exists = (\<lambda>n p. False),
      read_csv = (\<lambda>n p. Inl (Exc OSError (ustr ''no such file''))),
      read_json = (\<lambda>n p. Inl (Exc OSError (ustr ''no such file''))),
      open_w = (\<lambda>n p. None),
      files = Map.empty,
      stdout = []\<rparr>"

text \<open>The Orchestrator that \<open>AIWorkflowBuilder(api_key='sk')\<close> constructs.\<close>

definition fresh :: AIWorkflowBuilder where
  "fresh = \<lparr>api_key = ustr ''sk'', tasks = [], workflows = Map.empty\<rparr>"

text \<open>
  Two tasks added in this order: \<open>A\<close>, a summarisation of a text that is one space, and
  \<open>B\<close>, an e-mail.
\<close>

definition two_calls :: "call list" where
  "two_calls =
     [AddTask TEXT_SUMMARIZATION (ustr ''A'') [] [(ustr ''text'', PStr (ustr '' ''))],
      AddTask EMAIL_GENERATION (ustr ''B'') [] [(ustr ''purpose'', PStr (ustr ''hello''))]]"

definition id_A :: pystr where
  "id_A = ustr ''task_0_100000''"

definition id_B :: pystr where
  "id_B = ustr ''task_1_100000''"

text \<open>The two tasks as \<open>add_task\<close> creates them in the stub world.\<close>

definition task_A :: Task where
  "task_A =
     \<lparr>task_id = id_A, task_type = TEXT_SUMMARIZATION, title = ustr ''A'', description = [],
      input_data = [(ustr ''text'', PStr (ustr '' ''))], output_data = None,
      status = ustr ''pending'', created_at = ustr ''2024-01-01T10:00:00.000001'',
      completed_at = None\<rparr>"

definition task_B :: Task where
  "task_B =
     \<lparr>task_id = id_B, task_type = EMAIL_GENERATION, title = ustr ''B'', description = [],
      input_data = [(ustr ''purpose'', PStr (ustr ''hello''))], output_data = None,
      status = ustr ''pending'', created_at = ustr ''2024-01-01T10:00:00.000003'',
      completed_at = None\<rparr>"

definition two_tasks :: AIWorkflowBuilder where
  "two_tasks = fresh\<lparr>tasks := [task_A, task_B]\<rparr>"

text \<open>
  Workflows over the two tasks: \<open>B\<close> before \<open>A\<close>; \<open>B\<close> twice; an identifier no task has.
\<close>

definition reversed_workflow :: AIWorkflowBuilder where
  "reversed_workflow = create_workflow two_tasks (ustr ''w1'') [id_B, id_A]"


definition dangling_workflow :: AIWorkflowBuilder where
  "dangling_workflow = create_workflow two_tasks (ustr ''w1'') [ustr ''taskX'']"

text \<open>The stub world whose backend answers \<open>ok\<close>.\<close>

definition ok_world :: world where
  "ok_world = stub_world (Inr (ustr ''ok''))"



section \<open>Basic facts\<close>

lemma ustr_eq_iff [simp]: "ustr a = ustr b \<longleftrightarrow> a = b"
  by (simp add: ustr_def inj_on_def)

lemma oracles_advance [simp]: "oracles (advance w) = oracles w"
  by (simp add: oracles_def advance_def)

lemma oracles_print [simp]: "oracles (print w l) = oracles w"
  by (simp add: oracles_def print_def)

lemma tick_advance [simp]: "tick (advance w) = Suc (tick w)"
  by (simp add: advance_def)

lemma tick_print [simp]: "tick (print w l) = tick w"
  by (simp add: print_def)

lemma chat_world: "chat w rq = (r, w') \<Longrightarrow> w' = advance w"
  by (auto simp: chat_def)

lemma generate_content_ok:
  assumes "generate_content w inp = (r, w')"
  shows "oracles w' = oracles w \<and> tick w \<le> tick w' \<and> (\<forall>res. r = Inr res \<longrightarrow> res \<noteq> [])"
  using assms
  by (auto simp: generate_content_def chat_def Let_def split: sum.splits prod.splits)

lemma generate_email_ok:
  assumes "generate_email w inp = (r, w')"
  shows "oracles w' = oracles w \<and> tick w \<le> tick w' \<and> (\<forall>res. r = Inr res \<longrightarrow> res \<noteq> [])"
  using assms
  by (auto simp: generate_email_def chat_def Let_def split: sum.splits prod.splits)

lemma generate_code_ok:
  assumes "generate_code w inp = (r, w')"
  shows "oracles w' = oracles w \<and> tick w \<le> tick w' \<and> (\<forall>res. r = Inr res \<longrightarrow> res \<noteq> [])"
  using assms
  by (auto simp: generate_code_def chat_def Let_def split: sum.splits prod.splits)

lemma translate_text_ok:
  assumes "translate_text w inp = (r, w')"
  shows "oracles w' = oracles w \<and> tick w \<le> tick w' \<and> (\<forall>res. r = Inr res \<longrightarrow> res \<noteq> [])"
  using assms
  by (auto simp: translate_text_def chat_def Let_def split: sum.splits prod.splits)

lemma summarize_text_ok:
  assumes "summarize_text w inp = (r, w')"
  shows "oracles w' = oracles w \<and> tick w \<le> tick w' \<and> (\<forall>res. r = Inr res \<longrightarrow> res \<noteq> [])"
  using assms
  by (auto simp: summarize_text_def chat_def Let_def split: sum.splits prod.splits)

lemma analysis_of_ok:
  assumes "analysis_of w df = (r, w')"
  shows "oracles w' = oracles w \<and> tick w \<le> tick w' \<and> (\<forall>res. r = Inr res \<longrightarrow> res \<noteq> [])"
  using assms
  by (auto simp: analysis_of_def chat_def Let_def split: sum.splits prod.splits)

lemma analyze_data_ok:
  assumes "analyze_data w inp = (r, w')"
  shows "oracles w' = oracles w \<and> tick w \<le> tick w' \<and> (\<forall>res. r = Inr res \<longrightarrow> res \<noteq> [])"
  using assms
  by (auto simp: analyze_data_def Let_def split: sum.splits prod.splits if_splits dest!: analysis_of_ok)

lemma dispatch_ok:
  assumes "dispatch w ty inp = (r, w')"
  shows "oracles w' = oracles w \<and> tick w \<le> tick w' \<and> (\<forall>res. r = Inr res \<longrightarrow> res \<noteq> [])"
  using assms
  by (cases ty)
     (simp_all add: generate_content_ok analyze_data_ok summarize_text_ok generate_email_ok
        translate_text_ok generate_code_ok)


lemma save_results_world:
  assumes "save_results w t = (r, w')"
  shows "oracles w' = oracles w \<and> tick w' = Suc (tick w) \<and> stdout w' = stdout w"
  using assms
  by (auto simp: save_results_def write_json_def Let_def oracles_def advance_def
           split: option.splits)


lemma execute_task_frame:
  assumes "execute_task w t = (r, t', w')"
  shows "task_id t' = task_id t \<and> task_type t' = task_type t \<and> title t' = title t \<and>
         description t' = description t \<and> input_data t' = input_data t \<and>
         created_at t' = created_at t \<and> oracles w' = oracles w \<and> tick w \<le> tick w'"
proof -
  obtain r0 w2 where d: "dispatch (print w (TaskStart (title t))) (task_type t) (input_data t) = (r0, w2)"
    by (cases "dispatch (print w (TaskStart (title t))) (task_type t) (input_data t)")
  from dispatch_ok [OF d] have o2: "oracles w2 = oracles w" and t2: "tick w \<le> tick w2"
    by simp_all
  show ?thesis
  proof (cases r0)
    case (Inl e)
    with assms d o2 t2 show ?thesis
      by (auto simp: execute_task_def Let_def on_exception_def)
  next
    case (Inr res)
    let ?t3 = "t\<lparr>status := ustr ''running'', output_data := Some res, status := ustr ''completed'',
                  completed_at := Some (isoformat (clock w2 (tick w2)))\<rparr>"
    obtain sv w4 where s: "save_results (advance w2) ?t3 = (sv, w4)"
      by (cases "save_results (advance w2) ?t3")
    from save_results_world [OF s] have "oracles w4 = oracles w" "tick w \<le> tick w4"
      using o2 t2 by simp_all
    with assms d Inr s show ?thesis
      by (cases sv) (auto simp: execute_task_def Let_def on_exception_def now_def)
  qed
qed

lemma execute_task_success:
  assumes "execute_task w t = (Inr res, t', w')"
  shows "status t' = ustr ''completed'' \<and> output_data t' = Some res \<and> res \<noteq> [] \<and>
         (\<exists>n. tick w \<le> n \<and> n < tick w' \<and> completed_at t' = Some (isoformat (clock w n)))"
proof -
  obtain r0 w2 where d: "dispatch (print w (TaskStart (title t))) (task_type t) (input_data t) = (r0, w2)"
    by (cases "dispatch (print w (TaskStart (title t))) (task_type t) (input_data t)")
  from dispatch_ok [OF d] have o2: "oracles w2 = oracles w" and t2: "tick w \<le> tick w2"
    and ne: "\<And>x. r0 = Inr x \<Longrightarrow> x \<noteq> []"
    by simp_all
  from o2 have c2: "clock w2 = clock w" by (simp add: oracles_def)
  show ?thesis
  proof (cases r0)
    case (Inl e)
    with assms d show ?thesis
      by (auto simp: execute_task_def Let_def on_exception_def)
  next
    case (Inr x)
    let ?t3 = "t\<lparr>status := ustr ''running'', output_data := Some x, status := ustr ''completed'',
                  completed_at := Some (isoformat (clock w2 (tick w2)))\<rparr>"
    obtain sv w4 where s: "save_results (advance w2) ?t3 = (sv, w4)"
      by (cases "save_results (advance w2) ?t3")
    from save_results_world [OF s] have t4: "tick w4 = Suc (Suc (tick w2))" by simp
    from assms d Inr s have "x = res \<and> t' = ?t3 \<and> tick w' = tick w4"
      by (cases sv) (auto simp: execute_task_def Let_def on_exception_def now_def)
    with ne [OF Inr] t2 t4 c2 show ?thesis
      by (auto intro!: exI [of _ "tick w2"])
  qed
qed


lemma replicate_5: "replicate 5 x = [x, x, x, x, x]"
  by (simp add: numeral_eq_Suc)


lemma two_calls_ids: "returned_ids two_calls (fresh, stub_world r) = [id_A, id_B]"
  by (simp add: two_calls_def fresh_def stub_world_def add_task_def now_def advance_def
      new_Task_def post_init_def strftime_HMS_def isoformat_def pad_def dec.simps id_A_def
      id_B_def Let_def ustr_def replicate_5)

lemma split_from_blank: "list_all is_space s \<Longrightarrow> split_from [] s = []"
  by (induction s) auto

lemma py_split_blank: "blank s \<Longrightarrow> py_split s = []"
  by (simp add: blank_def py_split_def split_from_blank)

lemma compression_ratio_blank:
  "blank s \<Longrightarrow>
   compression_ratio (PStr s) summary = Inl (Exc ZeroDivisionError (ustr ''division by zero''))"
  by (simp add: compression_ratio_def py_split_blank true_div_def) (simp add: blank_def)

lemma summarize_text_blank:
  assumes "py_get inp (ustr ''text'') (PStr []) = PStr s" and "blank s"
  shows "isl (fst (summarize_text w inp))"
    and "times2 (py_get inp (ustr ''max_length'') (PInt 150)) = Inr mt \<Longrightarrow>
         \<forall>rq. acreate w (tick w) rq = Inr summary \<Longrightarrow>
         summarize_text w inp = (Inl (Exc ZeroDivisionError (ustr ''division by zero'')), advance w)"
  using assms
  by (auto simp: summarize_text_def chat_def Let_def compression_ratio_blank
           split: sum.splits prod.splits)

lemma execute_task_raises:
  assumes "dispatch (print w (TaskStart (title t))) (task_type t) (input_data t) = (Inl e, w2)"
  shows "execute_task w t =
           (Inl e,
            t\<lparr>status := ustr ''failed'', output_data := Some [(ustr ''error'', PStr (str_exc e))]\<rparr>,
            print w2 (TaskFailed (title t) (str_exc e)))"
  using assms by (simp add: execute_task_def Let_def on_exception_def)

lemma acreate_print [simp]: "acreate (print w l) = acreate w"
  by (simp add: print_def)

section \<open>Summarising a text of white space only\<close>

text \<open>
  Claim C9. For every \<open>text_summarization\<close> task whose input text is a non-empty string of
  white space only, the computation of \<open>compression_ratio\<close> divides by zero: the guard
  tests the truth value of the string, not its word count. \<open>execute_task\<close> never returns
  for such a task, and when \<open>max_length\<close> can be doubled and the backend answers, what it
  raises is the division error, recorded on the task as the failure.
\<close>

theorem blank_text_divides_by_zero:
  assumes "task_type t = TEXT_SUMMARIZATION"
    and "py_get (input_data t) (ustr ''text'') (PStr []) = PStr s"
    and "blank s"
  shows "compression_ratio (PStr s) summary =
           Inl (Exc ZeroDivisionError (ustr ''division by zero'')) \<and>
         isl (fst (execute_task w t)) \<and>
         (times2 (py_get (input_data t) (ustr ''max_length'') (PInt 150)) = Inr mt \<and>
          (\<forall>rq. acreate w (tick w) rq = Inr summary) \<longrightarrow>
            fst (execute_task w t) = Inl (Exc ZeroDivisionError (ustr ''division by zero'')) \<and>
            status (fst (snd (execute_task w t))) = ustr ''failed'' \<and>
            output_data (fst (snd (execute_task w t))) =
              Some [(ustr ''error'', PStr (ustr ''division by zero''))])"
proof (intro conjI impI)
  show "compression_ratio (PStr s) summary =
          Inl (Exc ZeroDivisionError (ustr ''division by zero''))"
    using assms(3) by (rule compression_ratio_blank)
next
  let ?w1 = "print w (TaskStart (title t))"
  obtain r w2 where d: "dispatch ?w1 (task_type t) (input_data t) = (r, w2)"
    by (cases "dispatch ?w1 (task_type t) (input_data t)")
  with assms(1) have "summarize_text ?w1 (input_data t) = (r, w2)" by simp
  with summarize_text_blank(1) [OF assms(2,3), of ?w1] obtain e where "r = Inl e"
    by (cases r) auto
  with d show "isl (fst (execute_task w t))"
    by (simp add: execute_task_raises)
next
  let ?w1 = "print w (TaskStart (title t))"
  let ?e = "Exc ZeroDivisionError (ustr ''division by zero'')"
  assume a: "times2 (py_get (input_data t) (ustr ''max_length'') (PInt 150)) = Inr mt \<and>
          (\<forall>rq. acreate w (tick w) rq = Inr summary)"
  then have "summarize_text ?w1 (input_data t) = (Inl ?e, advance ?w1)"
    using summarize_text_blank(2) [OF assms(2,3), of mt ?w1 summary] by simp
  with assms(1) have d: "dispatch ?w1 (task_type t) (input_data t) = (Inl ?e, advance ?w1)"
    by simp
  show "fst (execute_task w t) = Inl ?e"
    and "status (fst (snd (execute_task w t))) = ustr ''failed''"
    and "output_data (fst (snd (execute_task w t))) =
              Some [(ustr ''error'', PStr (ustr ''division by zero''))]"
    by (simp_all add: execute_task_raises [OF d])
qed

theorem blank_text_divides_by_zero_witness:
  "task_type task_A = TEXT_SUMMARIZATION \<and>
   py_get (input_data task_A) (ustr ''text'') (PStr []) = PStr (ustr '' '') \<and>
   blank (ustr '' '') \<and>
   times2 (py_get (input_data task_A) (ustr ''max_length'') (PInt 150)) = Inr (PInt 300) \<and>
   (\<forall>rq. acreate (stub_world (Inr (ustr ''ok''))) (tick (stub_world (Inr (ustr ''ok'')))) rq
           = Inr (ustr ''ok'')) \<and>
   fst (execute_task (stub_world (Inr (ustr ''ok''))) task_A) =
     Inl (Exc ZeroDivisionError (ustr ''division by zero''))"
proof -
  have h1: "task_type task_A = TEXT_SUMMARIZATION" by (simp add: task_A_def)
  have h2: "py_get (input_data task_A) (ustr ''text'') (PStr []) = PStr (ustr '' '')"
    by (simp add: task_A_def py_get_def)
  have h3: "blank (ustr '' '')" by (simp add: blank_def ustr_def is_space_def)
  have h4: "times2 (py_get (input_data task_A) (ustr ''max_length'') (PInt 150)) = Inr (PInt 300)"
    by (simp add: task_A_def py_get_def)
  have h5: "\<forall>rq. acreate (stub_world (Inr (ustr ''ok''))) (tick (stub_world (Inr (ustr ''ok'')))) rq
           = Inr (ustr ''ok'')" by (simp add: stub_world_def)
  from blank_text_divides_by_zero [OF h1 h2 h3, of "ustr ''ok''" "stub_world (Inr (ustr ''ok''))" "PInt 300"]
    h1 h2 h3 h4 h5 show ?thesis by blast
qed

text \<open>
  Claim C6. The \<open>compression_ratio\<close> of a summary is never to raise a division error. For
  the task whose text is one space, with a backend that answers \<open>one two\<close>, \<open>execute_task\<close>
  raises \<open>ZeroDivisionError\<close>: the text is not empty, so the guard lets the division by its
  word count, zero, through.
\<close>

theorem compression_ratio_raises_on_blank_text:
  "fst (execute_task (stub_world (Inr (ustr ''one two''))) task_A) =
     Inl (Exc ZeroDivisionError (ustr ''division by zero'')) \<and>
   py_get (input_data task_A) (ustr ''text'') (PStr []) = PStr (ustr '' '')"
proof -
  let ?w = "stub_world (Inr (ustr ''one two''))"
  let ?w1 = "print ?w (TaskStart (title task_A))"
  have b: "blank (ustr '' '')" by (simp add: blank_def ustr_def is_space_def)
  have g: "py_get (input_data task_A) (ustr ''text'') (PStr []) = PStr (ustr '' '')"
    by (simp add: task_A_def py_get_def)
  have "summarize_text ?w1 (input_data task_A) =
          (Inl (Exc ZeroDivisionError (ustr ''division by zero'')), advance ?w1)"
    by (rule summarize_text_blank(2) [OF g b, of "PInt 300" _ "ustr ''one two''"])
       (simp_all add: task_A_def py_get_def stub_world_def)
  then have "dispatch ?w1 (task_type task_A) (input_data task_A) =
          (Inl (Exc ZeroDivisionError (ustr ''division by zero'')), advance ?w1)"
    by (simp add: task_A_def)
  from execute_task_raises [OF this] g show ?thesis by simp
qed

section \<open>The loop of a workflow\<close>

lemma tasks_to_execute_distinct: "distinct (tasks_to_execute ts ids)"
  by (simp add: tasks_to_execute_def)

lemma tasks_to_execute_bound: "i \<in> set (tasks_to_execute ts ids) \<Longrightarrow> i < length ts"
  by (simp add: tasks_to_execute_def)

lemma map_nth_filter_upt:
  "map ((!) ts) (filter (\<lambda>i. P (ts ! i)) [0..<length ts]) = filter P ts"
proof -
  have "map ((!) ts) (filter (\<lambda>i. P (ts ! i)) [0..<length ts]) =
        filter P (map ((!) ts) [0..<length ts])"
    by (simp add: filter_map comp_def)
  then show ?thesis by (simp add: map_nth)
qed

lemma tasks_to_execute_tasks:
  "map ((!) ts) (tasks_to_execute ts ids) = in_task_list_order ts ids"
  unfolding tasks_to_execute_def in_task_list_order_def by (rule map_nth_filter_upt)

lemma length_tasks_to_execute:
  "length (tasks_to_execute ts ids) = length (in_task_list_order ts ids)"
  by (metis length_map tasks_to_execute_tasks)

lemma tasks_to_execute_none:
  "\<forall>t\<in>set ts. task_id t \<notin> set ids \<Longrightarrow> tasks_to_execute ts ids = []"
  by (auto simp: tasks_to_execute_def filter_empty_conv)

lemma raised_Cons_Inr [simp]: "raised ((Inr x, t) # outs) = raised outs"
  by (cases outs) (simp_all add: raised_def)

lemma raised_single_Inl [simp]: "raised [(Inl e, t)] = Some e"
  by (simp add: raised_def)

lemma raised_Nil [simp]: "raised [] = None"
  by (simp add: raised_def)

lemma write_back_Nil [simp]: "write_back ts sel [] = ts"
  by (cases sel) simp_all

lemma length_write_back [simp]: "length (write_back ts sel outs) = length ts"
  by (induction ts sel outs rule: write_back.induct) simp_all

lemma write_back_other:
  "i \<notin> set (take (length outs) sel) \<Longrightarrow> write_back ts sel outs ! i = ts ! i"
  by (induction ts sel outs rule: write_back.induct) auto

lemma write_back_nth:
  "distinct sel \<Longrightarrow> j < length outs \<Longrightarrow> j < length sel \<Longrightarrow> \<forall>i\<in>set sel. i < length ts \<Longrightarrow>
   write_back ts sel outs ! (sel ! j) = snd (outs ! j)"
proof (induction ts sel outs arbitrary: j rule: write_back.induct)
  case (1 ts i rest x xs)
  show ?case
  proof (cases j)
    case 0
    have "i \<notin> set (take (length xs) rest)" using "1.prems"(1) by (auto dest: in_set_takeD)
    then have "write_back (ts[i := snd x]) rest xs ! i = (ts[i := snd x]) ! i"
      by (rule write_back_other)
    with 0 "1.prems" show ?thesis by simp
  next
    case (Suc k)
    with "1.prems" "1.IH" [of k] show ?thesis by simp
  qed
qed simp_all

lemma attempt_length: "attempt w ts = (outs, w') \<Longrightarrow> length outs \<le> length ts"
  by (induction ts arbitrary: w outs w')
     (auto split: prod.splits sum.splits)

lemma attempt_all: "attempt w ts = (outs, w') \<Longrightarrow> raised outs = None \<Longrightarrow> length outs = length ts"
  by (induction ts arbitrary: w outs w')
     (auto split: prod.splits sum.splits)

lemma attempt_but_last:
  "attempt w ts = (outs, w') \<Longrightarrow> Suc j < length outs \<Longrightarrow> isl (fst (outs ! j)) = False"
proof (induction ts arbitrary: w outs w' j)
  case Nil
  then show ?case by simp
next
  case (Cons t ts)
  then show ?case
    by (cases j) (auto split: prod.splits sum.splits)
qed

lemma execute_each_attempt:
  assumes "distinct sel" and "\<forall>i\<in>set sel. i < length ts"
    and "attempt w (map ((!) ts) sel) = (outs, wa)"
  shows "execute_each w ts sel results =
           ((case raised outs of Some e \<Rightarrow> Inl e | None \<Rightarrow> Inr (results @ map result_of outs)),
            write_back ts sel outs, wa)"
  using assms
proof (induction sel arbitrary: w ts results outs wa)
  case Nil
  then show ?case by simp
next
  case (Cons i rest)
  obtain r t' w' where ex: "execute_task w (ts ! i) = (r, t', w')"
    by (cases "execute_task w (ts ! i)")
  show ?case
  proof (cases r)
    case (Inl e)
    with ex Cons.prems show ?thesis by auto
  next
    case (Inr x)
    obtain outs' where a: "attempt w' (map ((!) ts) rest) = (outs', wa)"
      and o: "outs = (Inr x, t') # outs'"
      using Cons.prems(3) ex Inr by (auto split: prod.splits)
    have same: "map ((!) (ts[i := t'])) rest = map ((!) ts) rest"
    proof (rule map_cong [OF refl])
      fix k assume "k \<in> set rest"
      with Cons.prems(1) have "i \<noteq> k" by auto
      then show "ts[i := t'] ! k = ts ! k" by simp
    qed
    have "execute_each w' (ts[i := t']) rest (results @ [x]) =
           ((case raised outs' of Some e \<Rightarrow> Inl e
             | None \<Rightarrow> Inr ((results @ [x]) @ map result_of outs')),
            write_back (ts[i := t']) rest outs', wa)"
      using Cons.prems(1,2) a by (intro Cons.IH) (simp_all add: same)
    with ex Inr o show ?thesis by (simp split: option.splits)
  qed
qed

lemma execute_workflow_attempt:
  assumes "workflows b name = Some ids"
    and "attempt (print (print w (WorkflowStart name))
                    (WorkflowTasks (length (in_task_list_order (tasks b) ids))))
                 (in_task_list_order (tasks b) ids) = (outs, w2)"
  shows "execute_workflow b w name =
           (returned outs, b\<lparr>tasks := write_back (tasks b) (tasks_to_execute (tasks b) ids) outs\<rparr>,
            (if raised outs = None then print w2 (WorkflowDone name) else w2))"
proof -
  let ?sel = "tasks_to_execute (tasks b) ids"
  let ?w1 = "print (print w (WorkflowStart name)) (WorkflowTasks (length ?sel))"
  have "attempt ?w1 (map ((!) (tasks b)) ?sel) = (outs, w2)"
    using assms(2) by (simp add: tasks_to_execute_tasks length_tasks_to_execute)
  then have "execute_each ?w1 (tasks b) ?sel [] =
           ((case raised outs of Some e \<Rightarrow> Inl e | None \<Rightarrow> Inr ([] @ map result_of outs)),
            write_back (tasks b) ?sel outs, w2)"
    by (intro execute_each_attempt tasks_to_execute_distinct)
       (auto dest: tasks_to_execute_bound)
  with assms(1) show ?thesis
    by (auto simp: execute_workflow_def Let_def returned_def split: option.splits)
qed

section \<open>Runs of the example tasks\<close>

lemma oracles_eq:
  "oracles w = oracles v \<longleftrightarrow>
     clock w = clock v \<and> acreate w = acreate v \<and> path_exists w = path_exists v \<and>
     read_csv w = read_csv v \<and> read_json w = read_json v \<and> open_w w = open_w v"
  by (auto simp: oracles_def)

lemma stdout_advance [simp]: "stdout (advance w) = stdout w"
  by (simp add: advance_def)

lemma stdout_print [simp]: "stdout (print w l) = stdout w @ [l]"
  by (simp add: print_def)

lemma analysis_of_stdout: "analysis_of w df = (r, w') \<Longrightarrow> stdout w' = stdout w"
  by (auto simp: analysis_of_def chat_def Let_def split: sum.splits prod.splits)

lemma dispatch_stdout:
  assumes "dispatch w ty inp = (r, w')"
  shows "stdout w' = stdout w"
proof (cases ty)
  case CONTENT_WRITING
  with assms show ?thesis
    by (auto simp: generate_content_def chat_def Let_def split: sum.splits prod.splits)
next
  case DATA_ANALYSIS
  with assms show ?thesis
    by (auto simp: analyze_data_def Let_def split: sum.splits prod.splits if_splits
             dest!: analysis_of_stdout)
next
  case TEXT_SUMMARIZATION
  with assms show ?thesis
    by (auto simp: summarize_text_def chat_def Let_def split: sum.splits prod.splits)
next
  case EMAIL_GENERATION
  with assms show ?thesis
    by (auto simp: generate_email_def chat_def Let_def split: sum.splits prod.splits)
next
  case TRANSLATION
  with assms show ?thesis
    by (auto simp: translate_text_def chat_def Let_def split: sum.splits prod.splits)
next
  case CODE_GENERATION
  with assms show ?thesis
    by (auto simp: generate_code_def chat_def Let_def split: sum.splits prod.splits)
qed

lemma execute_task_stdout:
  assumes "execute_task w t = (r, t', w')"
  shows "stdout w' = stdout w @
           [TaskStart (title t),
            (case r of Inl e \<Rightarrow> TaskFailed (title t) (str_exc e) | Inr x \<Rightarrow> TaskDone (title t))]"
proof -
  obtain r0 w2 where d: "dispatch (print w (TaskStart (title t))) (task_type t) (input_data t) = (r0, w2)"
    by (cases "dispatch (print w (TaskStart (title t))) (task_type t) (input_data t)")
  from dispatch_stdout [OF d] have s2: "stdout w2 = stdout w @ [TaskStart (title t)]" by simp
  show ?thesis
  proof (cases r0)
    case (Inl e)
    with assms d s2 show ?thesis
      by (auto simp: execute_task_def Let_def on_exception_def)
  next
    case (Inr x)
    let ?t3 = "t\<lparr>status := ustr ''running'', output_data := Some x, status := ustr ''completed'',
                  completed_at := Some (isoformat (clock w2 (tick w2)))\<rparr>"
    obtain sv w4 where s: "save_results (advance w2) ?t3 = (sv, w4)"
      by (cases "save_results (advance w2) ?t3")
    from save_results_world [OF s] s2 have "stdout w4 = stdout w @ [TaskStart (title t)]" by simp
    with assms d Inr s show ?thesis
      by (cases sv) (auto simp: execute_task_def Let_def on_exception_def now_def)
  qed
qed

lemma execute_task_returns:
  assumes "dispatch (print w (TaskStart (title t))) (task_type t) (input_data t) = (Inr result, w2)"
    and "\<forall>p. open_w w2 (Suc (tick w2)) p = None"
  shows "\<exists>t' w'. execute_task w t = (Inr result, t', w')"
  using assms
  by (simp add: execute_task_def Let_def now_def save_results_def write_json_def advance_def)

text \<open>The two example tasks in a world that answers as the stub world does.\<close>

lemma execute_task_A:
  assumes "oracles w = oracles ok_world"
  shows "\<exists>w'. execute_task w task_A =
           (Inl (Exc ZeroDivisionError (ustr ''division by zero'')),
            task_A\<lparr>status := ustr ''failed'',
                   output_data := Some [(ustr ''error'', PStr (ustr ''division by zero''))]\<rparr>, w')"
proof -
  let ?w1 = "print w (TaskStart (title task_A))"
  have b: "blank (ustr '' '')" by (simp add: blank_def ustr_def is_space_def)
  have g: "py_get (input_data task_A) (ustr ''text'') (PStr []) = PStr (ustr '' '')"
    by (simp add: task_A_def py_get_def)
  have a: "\<forall>rq. acreate ?w1 (tick ?w1) rq = Inr (ustr ''ok'')"
    using assms by (simp add: oracles_eq ok_world_def stub_world_def)
  have "summarize_text ?w1 (input_data task_A) =
          (Inl (Exc ZeroDivisionError (ustr ''division by zero'')), advance ?w1)"
    by (rule summarize_text_blank(2) [OF g b _ a, of "PInt 300"])
       (simp add: task_A_def py_get_def)
  then have "dispatch ?w1 (task_type task_A) (input_data task_A) =
          (Inl (Exc ZeroDivisionError (ustr ''division by zero'')), advance ?w1)"
    by (simp add: task_A_def)
  from execute_task_raises [OF this] show ?thesis by simp
qed

lemma execute_task_B:
  assumes "oracles w = oracles ok_world"
  shows "\<exists>res t' w'. execute_task w task_B = (Inr res, t', w')"
proof -
  let ?w1 = "print w (TaskStart (title task_B))"
  have a: "acreate w = (\<lambda>n rq. Inr (ustr ''ok''))" and o: "open_w w = (\<lambda>n p. None)"
    using assms by (simp_all add: oracles_eq ok_world_def stub_world_def)
  obtain r w2 where d: "dispatch ?w1 (task_type task_B) (input_data task_B) = (r, w2)"
    by (cases "dispatch ?w1 (task_type task_B) (input_data task_B)")
  from dispatch_ok [OF d] have "oracles w2 = oracles w" by simp
  with o have o2: "\<forall>p. open_w w2 (Suc (tick w2)) p = None" by (simp add: oracles_eq)
  from d a obtain res where "r = Inr res"
    by (auto simp: task_B_def generate_email_def chat_def Let_def split: prod.splits)
  with d execute_task_returns [OF _ o2] show ?thesis by blast
qed

lemma reversed_workflow_registered:
  "workflows reversed_workflow (ustr ''w1'') = Some [id_B, id_A]"
  by (simp add: reversed_workflow_def create_workflow_def)

lemma reversed_workflow_tasks: "tasks reversed_workflow = [task_A, task_B]"
  by (simp add: reversed_workflow_def create_workflow_def two_tasks_def fresh_def)

lemma task_ids [simp]: "task_id task_A = id_A" "task_id task_B = id_B"
  by (simp_all add: task_A_def task_B_def)

lemma id_A_neq_B [simp]: "id_A \<noteq> id_B" "id_B \<noteq> id_A"
  by (simp_all add: id_A_def id_B_def)

lemma reversed_in_workflow_order:
  "in_workflow_order (tasks reversed_workflow) [id_B, id_A] = [task_B, task_A]"
  by (simp add: in_workflow_order_def reversed_workflow_tasks)

lemma reversed_to_execute: "tasks_to_execute [task_A, task_B] [id_B, id_A] = [0, 1]"
  by (simp add: tasks_to_execute_def upt_rec)

section \<open>Order of execution in a workflow\<close>

text \<open>
  Claim C1, as stated, at the workflow \<open>[B, A]\<close> over the task list \<open>[A, B]\<close>, where
  executing \<open>A\<close> raises.
\<close>

theorem execute_workflow_not_in_workflow_order:
  "workflows reversed_workflow (ustr ''w1'') = Some [id_B, id_A] \<and>
   map task_id (tasks reversed_workflow) = [id_A, id_B] \<and>
   map status (tasks (fst (snd (execute_workflow reversed_workflow ok_world (ustr ''w1''))))) =
     [ustr ''failed'', ustr ''pending''] \<and>
   stdout (snd (snd (execute_workflow reversed_workflow ok_world (ustr ''w1'')))) =
     [WorkflowStart (ustr ''w1''), WorkflowTasks 2, TaskStart (ustr ''A''),
      TaskFailed (ustr ''A'') (ustr ''division by zero'')] \<and>
   map (task_id \<circ> snd)
     (fst (attempt (print (print ok_world (WorkflowStart (ustr ''w1''))) (WorkflowTasks 2))
        (in_workflow_order (tasks reversed_workflow) [id_B, id_A]))) = [id_B, id_A] \<and>
   map (status \<circ> snd)
     (fst (attempt (print (print ok_world (WorkflowStart (ustr ''w1''))) (WorkflowTasks 2))
        (in_workflow_order (tasks reversed_workflow) [id_B, id_A]))) =
     [ustr ''completed'', ustr ''failed'']"
proof -
  let ?w1 = "print (print ok_world (WorkflowStart (ustr ''w1''))) (WorkflowTasks 2)"
  let ?e = "Exc ZeroDivisionError (ustr ''division by zero'')"
  let ?A' = "task_A\<lparr>status := ustr ''failed'',
                   output_data := Some [(ustr ''error'', PStr (ustr ''division by zero''))]\<rparr>"
  have o1: "oracles ?w1 = oracles ok_world" by simp
  \<comment> \<open>the code: \<open>A\<close> first\<close>
  from execute_task_A [OF o1] obtain wa where xa: "execute_task ?w1 task_A = (Inl ?e, ?A', wa)"
    by blast
  from execute_task_stdout [OF xa]
  have sa: "stdout wa = [WorkflowStart (ustr ''w1''), WorkflowTasks 2, TaskStart (ustr ''A''),
      TaskFailed (ustr ''A'') (ustr ''division by zero'')]"
    by (simp add: ok_world_def stub_world_def task_A_def)
  have code: "execute_workflow reversed_workflow ok_world (ustr ''w1'') =
          (Inl ?e, reversed_workflow\<lparr>tasks := [?A', task_B]\<rparr>, wa)"
    using xa
    by (simp add: execute_workflow_def reversed_workflow_registered reversed_to_execute
        reversed_workflow_tasks Let_def numeral_2_eq_2 [symmetric])
  \<comment> \<open>the order of the workflow's list: \<open>B\<close> first\<close>
  from execute_task_B [OF o1] obtain rb tb wb where xb: "execute_task ?w1 task_B = (Inr rb, tb, wb)"
    by blast
  from execute_task_frame [OF xb] execute_task_success [OF xb]
  have fb: "task_id tb = id_B" "status tb = ustr ''completed''" "oracles wb = oracles ok_world"
    by simp_all
  from execute_task_A [OF fb(3)] obtain wc where xc: "execute_task wb task_A = (Inl ?e, ?A', wc)"
    by blast
  have spec: "fst (attempt ?w1 [task_B, task_A]) = [(Inr rb, tb), (Inl ?e, ?A')]"
    using xb xc by simp
  have c3: "map status (tasks (fst (snd (execute_workflow reversed_workflow ok_world (ustr ''w1''))))) =
     [ustr ''failed'', ustr ''pending'']"
    unfolding code by (simp add: task_B_def)
  have c4: "stdout (snd (snd (execute_workflow reversed_workflow ok_world (ustr ''w1'')))) =
     [WorkflowStart (ustr ''w1''), WorkflowTasks 2, TaskStart (ustr ''A''),
      TaskFailed (ustr ''A'') (ustr ''division by zero'')]"
    unfolding code by (simp add: sa)
  have c5: "map (task_id \<circ> snd)
     (fst (attempt ?w1 (in_workflow_order (tasks reversed_workflow) [id_B, id_A]))) = [id_B, id_A]"
    unfolding reversed_in_workflow_order spec using fb(1) by simp
  have c6: "map (status \<circ> snd)
     (fst (attempt ?w1 (in_workflow_order (tasks reversed_workflow) [id_B, id_A]))) =
     [ustr ''completed'', ustr ''failed'']"
    unfolding reversed_in_workflow_order spec using fb(2) by simp
  have c2: "map task_id (tasks reversed_workflow) = [id_A, id_B]"
    by (simp add: reversed_workflow_tasks)
  from reversed_workflow_registered c2 c3 c4 c5 c6 show ?thesis by (intro conjI)
qed

text \<open>
  Claim C1, amended. For every registered workflow, \<open>execute_workflow\<close> executes the tasks
  of the Orchestrator's task list whose identifier occurs in the workflow's list, strictly
  one after the other in the order of the Orchestrator's task list, and stops at the first
  execution that raises: what it returns or raises is what that run returns or raises,
  every task attempted is stored as its execution left it, and every other task, the
  unattempted ones of the workflow among them, is left as it was.
\<close>

theorem execute_workflow_in_task_list_order:
  assumes "workflows b name = Some ids"
    and "attempt (print (print w (WorkflowStart name))
                    (WorkflowTasks (length (in_task_list_order (tasks b) ids))))
                 (in_task_list_order (tasks b) ids) = (outs, w2)"
    and "execute_workflow b w name = (r, b', w')"
  shows "r = returned outs \<and>
         length outs \<le> length (in_task_list_order (tasks b) ids) \<and>
         (raised outs = None \<longrightarrow> length outs = length (in_task_list_order (tasks b) ids)) \<and>
         (\<forall>j. Suc j < length outs \<longrightarrow> \<not> isl (fst (outs ! j))) \<and>
         length (tasks b') = length (tasks b) \<and>
         (\<forall>j < length outs. tasks b' ! (tasks_to_execute (tasks b) ids ! j) = snd (outs ! j)) \<and>
         (\<forall>i. i \<notin> set (take (length outs) (tasks_to_execute (tasks b) ids)) \<longrightarrow>
              tasks b' ! i = tasks b ! i) \<and>
         w' = (if raised outs = None then print w2 (WorkflowDone name) else w2)"
proof -
  let ?sel = "tasks_to_execute (tasks b) ids"
  from execute_workflow_attempt [OF assms(1,2)] assms(3)
  have r: "r = returned outs" and b': "b' = b\<lparr>tasks := write_back (tasks b) ?sel outs\<rparr>"
    and w': "w' = (if raised outs = None then print w2 (WorkflowDone name) else w2)"
    by simp_all
  have len: "length outs \<le> length (in_task_list_order (tasks b) ids)"
    using assms(2) by (rule attempt_length)
  have nth: "\<forall>j < length outs. tasks b' ! (?sel ! j) = snd (outs ! j)"
  proof (intro allI impI)
    fix j assume "j < length outs"
    moreover from this len have "j < length ?sel" by (simp add: length_tasks_to_execute)
    ultimately show "tasks b' ! (?sel ! j) = snd (outs ! j)"
      unfolding b' using tasks_to_execute_distinct [of "tasks b" ids]
      by (simp add: write_back_nth tasks_to_execute_bound)
  qed
  show ?thesis
    using r w' len nth attempt_all [OF assms(2)] attempt_but_last [OF assms(2)]
    by (auto simp: b' write_back_other)
qed

theorem execute_workflow_in_task_list_order_witness:
  "workflows reversed_workflow (ustr ''w1'') = Some [id_B, id_A] \<and>
   fst (execute_workflow reversed_workflow ok_world (ustr ''w1'')) =
     returned (fst (attempt (print (print ok_world (WorkflowStart (ustr ''w1'')))
                      (WorkflowTasks (length (in_task_list_order (tasks reversed_workflow) [id_B, id_A]))))
                   (in_task_list_order (tasks reversed_workflow) [id_B, id_A]))) \<and>
   in_task_list_order (tasks reversed_workflow) [id_B, id_A] = [task_A, task_B]"
proof -
  let ?a = "attempt (print (print ok_world (WorkflowStart (ustr ''w1'')))
                      (WorkflowTasks (length (in_task_list_order (tasks reversed_workflow) [id_B, id_A]))))
                   (in_task_list_order (tasks reversed_workflow) [id_B, id_A])"
  let ?x = "execute_workflow reversed_workflow ok_world (ustr ''w1'')"
  have h2: "?a = (fst ?a, snd ?a)" by simp
  have h3: "?x = (fst ?x, fst (snd ?x), snd (snd ?x))" by simp
  have "in_task_list_order (tasks reversed_workflow) [id_B, id_A] = [task_A, task_B]"
    by (simp add: in_task_list_order_def reversed_workflow_def create_workflow_def two_tasks_def
        task_A_def task_B_def)
  with execute_workflow_in_task_list_order [OF reversed_workflow_registered h2 h3]
    reversed_workflow_registered
  show ?thesis by blast
qed

section \<open>Dangling identifiers\<close>

text \<open>
  Claim C8. For a workflow whose identifier list names no task of the Orchestrator's task
  list, \<open>execute_workflow\<close> returns the empty result list and raises nothing; no task is
  touched.
\<close>

theorem execute_workflow_dangling:
  assumes "workflows b name = Some ids" and "\<forall>t\<in>set (tasks b). task_id t \<notin> set ids"
  shows "execute_workflow b w name =
           (Inr [], b,
            print (print (print w (WorkflowStart name)) (WorkflowTasks 0)) (WorkflowDone name))"
  using assms by (simp add: execute_workflow_def tasks_to_execute_none)

theorem execute_workflow_dangling_witness:
  "workflows dangling_workflow (ustr ''w1'') = Some [ustr ''taskX''] \<and>
   map task_id (tasks dangling_workflow) = [id_A, id_B] \<and>
   fst (execute_workflow dangling_workflow ok_world (ustr ''w1'')) = Inr []"
proof -
  have h1: "workflows dangling_workflow (ustr ''w1'') = Some [ustr ''taskX'']"
    by (simp add: dangling_workflow_def create_workflow_def)
  have ts: "tasks dangling_workflow = [task_A, task_B]"
    by (simp add: dangling_workflow_def create_workflow_def two_tasks_def fresh_def)
  have h2: "\<forall>t\<in>set (tasks dangling_workflow). task_id t \<notin> set [ustr ''taskX'']"
    by (simp add: ts id_A_def id_B_def)
  from execute_workflow_dangling [OF h1 h2, of ok_world] h1 ts show ?thesis by simp
qed

section \<open>Exporting in another format\<close>

lemma export_other_format:
  assumes "workflows b name = Some ids" and "format \<noteq> ustr ''json''"
  shows "export_workflow_results b w name format =
           (Inl (Exc UnboundLocalError
              (ustr ''local variable '' @ quoted ''filepath'' @
               ustr '' referenced before assignment'')), advance w)"
  using assms by (simp add: export_workflow_results_def now_def Let_def)

text \<open>
  Claim C3. A format other than \<open>json\<close> is to be accepted silently: no file, and a normal
  return. For the registered workflow \<open>w1\<close> and the format \<open>csv\<close> no file is written, but
  the call does not return: it raises \<open>UnboundLocalError\<close>.
\<close>

theorem export_csv_raises:
  "workflows reversed_workflow (ustr ''w1'') = Some [id_B, id_A] \<and>
   fst (export_workflow_results reversed_workflow ok_world (ustr ''w1'') (ustr ''csv'')) =
     Inl (Exc UnboundLocalError
            (ustr ''local variable '' @ quoted ''filepath'' @
             ustr '' referenced before assignment'')) \<and>
   files (snd (export_workflow_results reversed_workflow ok_world (ustr ''w1'') (ustr ''csv''))) =
     files ok_world"
proof -
  have "ustr ''csv'' \<noteq> ustr ''json''" by simp
  from export_other_format [OF reversed_workflow_registered this, of ok_world]
    reversed_workflow_registered
  show ?thesis by (simp add: advance_def)
qed

section \<open>An identifier listed more than once\<close>





section \<open>Identifiers\<close>

lemma dec_nonempty [simp]: "dec n \<noteq> []" "[] \<noteq> dec n"
  by (subst dec.simps, simp)+

lemma dec_digits: "c \<in> set (dec n) \<Longrightarrow> 48 \<le> c \<and> c \<le> 57"
proof (induction n rule: dec.induct)
  case (1 n)
  show ?case
  proof (cases "n < 10")
    case True
    with "1.prems" show ?thesis by (subst (asm) dec.simps) simp
  next
    case False
    with "1.prems" have "c \<in> set (dec (n div 10)) \<or> c = 48 + n mod 10"
      by (subst (asm) dec.simps) auto
    with False "1.IH" show ?thesis by auto
  qed
qed

lemma dec_inj: "dec n = dec m \<Longrightarrow> n = m"
proof (induction n arbitrary: m rule: dec.induct)
  case (1 n)
  show ?case
  proof (cases "n < 10")
    case True
    then have n: "dec n = [48 + n]" by (subst dec.simps) simp
    show ?thesis
    proof (cases "m < 10")
      case True
      then have "dec m = [48 + m]" by (subst dec.simps) simp
      with n "1.prems" show ?thesis by simp
    next
      case False
      then have "dec m = dec (m div 10) @ [48 + m mod 10]" by (subst dec.simps) simp
      with n "1.prems" show ?thesis by simp
    qed
  next
    case False
    then have n: "dec n = dec (n div 10) @ [48 + n mod 10]" by (subst dec.simps) simp
    show ?thesis
    proof (cases "m < 10")
      case True
      then have "dec m = [48 + m]" by (subst dec.simps) simp
      with n "1.prems" show ?thesis by simp
    next
      case m: False
      then have "dec m = dec (m div 10) @ [48 + m mod 10]" by (subst dec.simps) simp
      with n "1.prems" have "dec (n div 10) = dec (m div 10)" and "n mod 10 = m mod 10"
        by simp_all
      with "1.IH" [OF False] have "n div 10 = m div 10" by simp
      with \<open>n mod 10 = m mod 10\<close> show ?thesis
        by (metis div_mult_mod_eq)
    qed
  qed
qed

lemma split_at_first:
  assumes "x \<notin> set xs" and "x \<notin> set xs'" and "xs @ x # ys = xs' @ x # ys'"
  shows "xs = xs'"
proof -
  have "takeWhile (\<lambda>c. c \<noteq> x) (xs @ x # ys) = xs"
    using assms(1) by (auto simp: takeWhile_tail)
  moreover have "takeWhile (\<lambda>c. c \<noteq> x) (xs' @ x # ys') = xs'"
    using assms(2) by (auto simp: takeWhile_tail)
  ultimately show ?thesis using assms(3) by simp
qed

lemma numbered_inj:
  assumes "ustr ''task_'' @ dec n @ ustr ''_'' @ h = ustr ''task_'' @ dec m @ ustr ''_'' @ h'"
  shows "n = m"
proof -
  have u: "ustr ''_'' = [95]" by (simp add: ustr_def)
  have "95 \<notin> set (dec n)" "95 \<notin> set (dec m)" using dec_digits by fastforce+
  moreover from assms have "dec n @ 95 # h = dec m @ 95 # h'" by (simp add: u)
  ultimately have "dec n = dec m" by (rule split_at_first)
  then show ?thesis by (rule dec_inj)
qed

lemma numbered_distinct:
  assumes "numbered ts"
  shows "distinct (map task_id ts)"
  unfolding distinct_conv_nth
proof (intro allI impI)
  fix i j assume ij: "i < length (map task_id ts)" "j < length (map task_id ts)" "i \<noteq> j"
  from assms ij(1) obtain h where i: "task_id (ts ! i) = ustr ''task_'' @ dec i @ ustr ''_'' @ h"
    unfolding numbered_def by auto
  from assms ij(2) obtain h' where j: "task_id (ts ! j) = ustr ''task_'' @ dec j @ ustr ''_'' @ h'"
    unfolding numbered_def by auto
  show "map task_id ts ! i \<noteq> map task_id ts ! j"
  proof
    assume "map task_id ts ! i = map task_id ts ! j"
    with ij(1,2) i j
    have "ustr ''task_'' @ dec i @ ustr ''_'' @ h = ustr ''task_'' @ dec j @ ustr ''_'' @ h'"
      by simp
    then have "i = j" by (rule numbered_inj)
    with ij(3) show False by simp
  qed
qed

section \<open>Invariants of the task list\<close>

lemma execute_each_invariant:
  assumes "I ts w"
    and step: "\<And>ts w i r t' w'. I ts w \<Longrightarrow> i < length ts \<Longrightarrow>
                 execute_task w (ts ! i) = (r, t', w') \<Longrightarrow> I (ts[i := t']) w'"
    and "\<forall>i\<in>set sel. i < length ts"
    and "execute_each w ts sel res = (r, ts', w')"
  shows "I ts' w'"
  using assms(1,3,4)
proof (induction sel arbitrary: ts w res)
  case Nil
  then show ?case by simp
next
  case (Cons i rest)
  obtain r1 t1 w1 where x: "execute_task w (ts ! i) = (r1, t1, w1)"
    by (cases "execute_task w (ts ! i)")
  have i: "i < length ts" using Cons.prems(2) by simp
  have I1: "I (ts[i := t1]) w1" by (rule step [OF Cons.prems(1) i x])
  show ?case
  proof (cases r1)
    case (Inl e)
    with Cons.prems(3) x I1 show ?thesis by simp
  next
    case (Inr y)
    with Cons.prems x have e2: "execute_each w1 (ts[i := t1]) rest (res @ [y]) = (r, ts', w')"
      by simp
    have b2: "\<forall>k\<in>set rest. k < length (ts[i := t1])" using Cons.prems(2) by simp
    show ?thesis by (rule Cons.IH [OF I1 b2 e2])
  qed
qed

lemma execute_workflow_invariant:
  assumes "I (tasks b) w"
    and step: "\<And>ts w i r t' w'. I ts w \<Longrightarrow> i < length ts \<Longrightarrow>
                 execute_task w (ts ! i) = (r, t', w') \<Longrightarrow> I (ts[i := t']) w'"
    and stable: "\<And>ts w w'. I ts w \<Longrightarrow> oracles w' = oracles w \<Longrightarrow> tick w \<le> tick w' \<Longrightarrow> I ts w'"
    and "execute_workflow b w name = (r, b', w')"
  shows "I (tasks b') w'"
proof (cases "workflows b name")
  case None
  with assms(1,4) show ?thesis by (simp add: execute_workflow_def)
next
  case (Some ids)
  let ?sel = "tasks_to_execute (tasks b) ids"
  let ?w1 = "print (print w (WorkflowStart name)) (WorkflowTasks (length ?sel))"
  obtain r1 ts1 w1 where x: "execute_each ?w1 (tasks b) ?sel [] = (r1, ts1, w1)"
    by (cases "execute_each ?w1 (tasks b) ?sel []")
  have I0: "I (tasks b) ?w1" using assms(1) by (rule stable) simp_all
  have bound: "\<forall>i\<in>set ?sel. i < length (tasks b)" by (auto dest: tasks_to_execute_bound)
  have I1: "I ts1 w1"
    by (rule execute_each_invariant [where I = I, OF I0 step bound x])
  show ?thesis
  proof (cases r1)
    case (Inl e)
    with assms(4) Some x I1 show ?thesis by (auto simp: execute_workflow_def Let_def)
  next
    case (Inr ys)
    have "I ts1 (print w1 (WorkflowDone name))" using I1 by (rule stable) simp_all
    with Inr assms(4) Some x show ?thesis by (auto simp: execute_workflow_def Let_def)
  qed
qed

lemma add_task_result:
  assumes "add_task b w ty ti de inp = (i, b', w')"
  shows "i = ustr ''task_'' @ dec (length (tasks b)) @ ustr ''_'' @ strftime_HMS (clock w (tick w)) \<and>
         b' = b\<lparr>tasks := tasks b @
                [\<lparr>task_id = i, task_type = ty, title = ti, description = de, input_data = inp,
                  output_data = None, status = ustr ''pending'',
                  created_at = isoformat (clock w (Suc (tick w))), completed_at = None\<rparr>]\<rparr> \<and>
         w' = advance (advance w)"
  using assms
  by (auto simp: add_task_def new_Task_def post_init_def now_def Let_def advance_def)

lemma export_world:
  assumes "export_workflow_results b w name format = (r, w')"
  shows "oracles w' = oracles w \<and> tick w \<le> tick w'"
  using assms
  by (auto simp: export_workflow_results_def now_def write_json_def Let_def oracles_def advance_def
           split: option.splits if_splits prod.splits sum.splits)

lemma perform_invariant:
  assumes "I (tasks b) w"
    and step: "\<And>ts w i r t' w'. I ts w \<Longrightarrow> i < length ts \<Longrightarrow>
                 execute_task w (ts ! i) = (r, t', w') \<Longrightarrow> I (ts[i := t']) w'"
    and stable: "\<And>ts w w'. I ts w \<Longrightarrow> oracles w' = oracles w \<Longrightarrow> tick w \<le> tick w' \<Longrightarrow> I ts w'"
    and add: "\<And>b w ty ti de inp i b' w'. I (tasks b) w \<Longrightarrow>
                 add_task b w ty ti de inp = (i, b', w') \<Longrightarrow> I (tasks b') w'"
    and "perform c (b, w) = (b', w')"
  shows "I (tasks b') w'"
proof (cases c)
  case (AddTask ty ti de inp)
  obtain i b1 w1 where x: "add_task b w ty ti de inp = (i, b1, w1)"
    by (cases "add_task b w ty ti de inp")
  with assms(5) AddTask have "b' = b1" "w' = w1" by simp_all
  with add [OF assms(1) x] show ?thesis by simp
next
  case (CreateWorkflow n ids)
  with assms(1,5) show ?thesis by (auto simp: create_workflow_def)
next
  case (ExecuteTask i)
  show ?thesis
  proof (cases "i < length (tasks b)")
    case True
    obtain r t1 w1 where x: "execute_task w (tasks b ! i) = (r, t1, w1)"
      by (cases "execute_task w (tasks b ! i)")
    from step [OF assms(1) True x] assms(5) ExecuteTask True x show ?thesis by auto
  next
    case False
    with assms(1,5) ExecuteTask show ?thesis by simp
  qed
next
  case (ExecuteWorkflow n)
  obtain r b1 w1 where x: "execute_workflow b w n = (r, b1, w1)"
    by (cases "execute_workflow b w n")
  with assms(5) ExecuteWorkflow have "b' = b1" "w' = w1" by simp_all
  with execute_workflow_invariant [where I = I, OF assms(1) step stable x] show ?thesis
    by simp
next
  case (GetTaskStatus i)
  with assms(1,5) show ?thesis by simp
next
  case ListTasks
  with assms(1,5) show ?thesis by simp
next
  case (ExportWorkflowResults n f)
  obtain r w1 where x: "export_workflow_results b w n f = (r, w1)"
    by (cases "export_workflow_results b w n f")
  with assms(5) ExportWorkflowResults have "b' = b" "w' = w1" by simp_all
  with stable [OF assms(1)] export_world [OF x] show ?thesis by simp
qed

lemma perform_all_invariant:
  assumes "I (tasks b) w"
    and step: "\<And>ts w i r t' w'. I ts w \<Longrightarrow> i < length ts \<Longrightarrow>
                 execute_task w (ts ! i) = (r, t', w') \<Longrightarrow> I (ts[i := t']) w'"
    and stable: "\<And>ts w w'. I ts w \<Longrightarrow> oracles w' = oracles w \<Longrightarrow> tick w \<le> tick w' \<Longrightarrow> I ts w'"
    and add: "\<And>b w ty ti de inp i b' w'. I (tasks b) w \<Longrightarrow>
                 add_task b w ty ti de inp = (i, b', w') \<Longrightarrow> I (tasks b') w'"
    and "perform_all cs (b, w) = (b', w')"
  shows "I (tasks b') w'"
  using assms(1,5)
proof (induction cs arbitrary: b w)
  case Nil
  then show ?case by simp
next
  case (Cons c cs)
  obtain b1 w1 where x: "perform c (b, w) = (b1, w1)" by (cases "perform c (b, w)")
  have "I (tasks b1) w1"
    by (rule perform_invariant [where I = I, OF Cons.prems(1) step stable add x])
  moreover from Cons.prems(2) x have "perform_all cs (b1, w1) = (b', w')" by simp
  ultimately show ?case by (rule Cons.IH)
qed


lemma map_task_id_update:
  assumes "task_id t' = task_id (ts ! i)"
  shows "map task_id (ts[i := t']) = map task_id ts"
proof (cases "i < length ts")
  case True
  then have "(map task_id ts)[i := task_id (ts ! i)] = map task_id ts"
    by (simp add: list_update_same_conv)
  with assms show ?thesis by (simp add: map_update)
next
  case False
  then have "length ts \<le> i" by arith
  then show ?thesis by (simp add: list_update_beyond)
qed

lemma numbered_step:
  assumes "numbered ts" and "i < length ts" and "execute_task w (ts ! i) = (r, t', w')"
  shows "numbered (ts[i := t'])"
proof -
  from execute_task_frame [OF assms(3)] have "task_id t' = task_id (ts ! i)" by simp
  with assms(1,2) show ?thesis
    by (auto simp: numbered_def nth_list_update)
qed

lemma numbered_add:
  assumes "numbered (tasks b)" and "add_task b w ty ti de inp = (i, b', w')"
  shows "numbered (tasks b')"
  using assms(1) add_task_result [OF assms(2)]
  by (auto simp: numbered_def nth_append less_Suc_eq)

lemma perform_all_numbered:
  assumes "numbered (tasks b)" and "perform_all cs (b, w) = (b', w')"
  shows "numbered (tasks b')"
  by (rule perform_all_invariant [where I = "\<lambda>ts w. numbered ts", OF assms(1) _ _ _ assms(2)])
     (auto intro: numbered_step numbered_add)

lemma perform_all_prefix:
  assumes "perform_all cs (b, w) = (b', w')"
  shows "take (length (tasks b)) (map task_id (tasks b')) = map task_id (tasks b) \<and>
         length (tasks b) \<le> length (tasks b')"
proof (rule perform_all_invariant
    [where I = "\<lambda>ts w. take (length (tasks b)) (map task_id ts) = map task_id (tasks b) \<and>
                        length (tasks b) \<le> length ts", OF _ _ _ _ assms])
  show "take (length (tasks b)) (map task_id (tasks b)) = map task_id (tasks b) \<and>
        length (tasks b) \<le> length (tasks b)" by simp
next
  fix ts w i r t' w'
  assume a: "take (length (tasks b)) (map task_id ts) = map task_id (tasks b) \<and>
             length (tasks b) \<le> length ts"
    and "i < length ts" and x: "execute_task w (ts ! i) = (r, t', w')"
  from execute_task_frame [OF x] have "map task_id (ts[i := t']) = map task_id ts"
    by (intro map_task_id_update) simp
  with a show "take (length (tasks b)) (map task_id (ts[i := t'])) = map task_id (tasks b) \<and>
               length (tasks b) \<le> length (ts[i := t'])" by simp
next
  fix c w ty ti de inp i c' w'
  assume a: "take (length (tasks b)) (map task_id (tasks c)) = map task_id (tasks b) \<and>
             length (tasks b) \<le> length (tasks c)"
    and x: "add_task c w ty ti de inp = (i, c', w')"
  from add_task_result [OF x] obtain t where "tasks c' = tasks c @ [t]" by simp
  with a show "take (length (tasks b)) (map task_id (tasks c')) = map task_id (tasks b) \<and>
               length (tasks b) \<le> length (tasks c')" by simp
qed simp

lemma perform_length:
  assumes "perform c (b, w) = (b', w')" and "\<And>ty ti de inp. c \<noteq> AddTask ty ti de inp"
  shows "length (tasks b') = length (tasks b)"
proof (cases c)
  case (ExecuteWorkflow n)
  obtain r b1 w1 where x: "execute_workflow b w n = (r, b1, w1)"
    by (cases "execute_workflow b w n")
  have "length (tasks b1) = length (tasks b)"
    by (rule execute_workflow_invariant
          [where I = "\<lambda>ts w. length ts = length (tasks b)", OF _ _ _ x]) simp_all
  with assms(1) ExecuteWorkflow x show ?thesis by simp
qed (use assms in \<open>auto simp: create_workflow_def split: prod.splits if_splits\<close>)

lemma returned_ids_drop:
  "returned_ids cs (b, w) =
     drop (length (tasks b)) (map task_id (tasks (fst (perform_all cs (b, w)))))"
proof (induction cs arbitrary: b w)
  case Nil
  then show ?case by simp
next
  case (Cons c cs)
  obtain b1 w1 where p: "perform c (b, w) = (b1, w1)" by (cases "perform c (b, w)")
  obtain b2 w2 where q: "perform_all cs (b1, w1) = (b2, w2)" by (cases "perform_all cs (b1, w1)")
  let ?F = "map task_id (tasks b2)"
  have IH: "returned_ids cs (b1, w1) = drop (length (tasks b1)) ?F"
    using Cons.IH [of b1 w1] q by simp
  show ?case
  proof (cases "\<exists>ty ti de inp. c = AddTask ty ti de inp")
    case True
    then obtain ty ti de inp where c: "c = AddTask ty ti de inp" by blast
    obtain i where x: "add_task b w ty ti de inp = (i, b1, w1)"
      using p c by (cases "add_task b w ty ti de inp") simp
    from add_task_result [OF x] obtain t where t: "tasks b1 = tasks b @ [t]" "task_id t = i"
      by simp
    from perform_all_prefix [OF q] t
    have "take (Suc (length (tasks b))) ?F = map task_id (tasks b) @ [i]"
      and len: "length (tasks b) < length ?F" by simp_all
    then have "?F ! length (tasks b) = i"
      by (metis length_map lessI nth_append_length nth_take)
    with len have "drop (length (tasks b)) ?F = i # drop (Suc (length (tasks b))) ?F"
      by (simp add: Cons_nth_drop_Suc [symmetric])
    with c x p q IH t(1) show ?thesis by simp
  next
    case False
    then have "length (tasks b1) = length (tasks b)"
      using perform_length [OF p] by blast
    moreover from False have "returned_ids (c # cs) (b, w) = returned_ids cs (perform c (b, w))"
      by (cases c) auto
    ultimately show ?thesis using p q IH by simp
  qed
qed

lemma init_tasks: "init key getenv = Inr b \<Longrightarrow> tasks b = []"
  by (auto simp: init_def Let_def split: option.splits if_splits)

section \<open>Uniqueness of identifiers\<close>

text \<open>
  Claim C7. Whatever calls are made on one Orchestrator, the identifiers that its
  \<open>add_task\<close> calls return are pairwise different; they are the identifiers of the tasks
  in the task list, in order.
\<close>

theorem add_task_ids_unique:
  assumes "init key getenv = Inr b"
  shows "distinct (returned_ids calls (b, w)) \<and>
         returned_ids calls (b, w) = map task_id (tasks (fst (perform_all calls (b, w))))"
proof -
  obtain b' w' where p: "perform_all calls (b, w) = (b', w')"
    by (cases "perform_all calls (b, w)")
  from init_tasks [OF assms] have e: "tasks b = []" .
  then have "numbered (tasks b)" by (simp add: numbered_def)
  from perform_all_numbered [OF this p] have "distinct (map task_id (tasks b'))"
    by (rule numbered_distinct)
  with returned_ids_drop [of calls b w] p e show ?thesis by simp
qed

theorem add_task_ids_unique_witness:
  "init (Some (ustr ''sk'')) None = Inr fresh \<and>
   returned_ids two_calls (fresh, ok_world) = [id_A, id_B] \<and>
   distinct (returned_ids two_calls (fresh, ok_world))"
proof -
  have h: "init (Some (ustr ''sk'')) None = Inr fresh"
    by (simp add: init_def fresh_def ustr_def)
  have ids: "returned_ids two_calls (fresh, ok_world) = [id_A, id_B]"
    by (simp add: ok_world_def two_calls_ids)
  from add_task_ids_unique [OF h, of two_calls ok_world]
  have "distinct (returned_ids two_calls (fresh, ok_world))" by (rule conjunct1)
  with h ids show ?thesis by (intro conjI)
qed

section \<open>The invariant of completed tasks\<close>


lemma failed_not_completed [simp]: "ustr ''failed'' \<noteq> ustr ''completed''"
  "ustr ''pending'' \<noteq> ustr ''completed''"
  by simp_all









section \<open>Failure of a task\<close>

lemma ustr_nonempty [simp]: "ustr (c # s) \<noteq> []"
  by (simp add: ustr_def)

lemma own_messages [simp]:
  "msg_no_data_file \<noteq> []" "msg_unsupported_file \<noteq> []"
  by (simp_all add: msg_no_data_file_def msg_unsupported_file_def)













section \<open>Exporting a workflow\<close>



lemma asdict_id [simp]: "py_get (asdict t) (ustr ''id'') PNone = PStr (task_id t)"
  by (simp add: asdict_def py_get_def)






lemma item_id_read_back [simp]: "item ''id'' (read_back (PDict (asdict t))) = PStr (task_id t)"
  by (simp add: item_def asdict_def py_get_def)

lemma item_type_read_back [simp]:
  "item ''type'' (read_back (PDict (asdict t))) = PStr (str_enum (task_type t))"
  by (simp add: item_def asdict_def py_get_def)

lemma item_type_listed [simp]: "item ''type'' (PDict (asdict t)) = PEnum (task_type t)"
  by (simp add: item_def asdict_def py_get_def)








end
